theory Spec2Isabelle
  imports Main "HOL-Library.AList"
begin

section \<open>The protocol header checker of pywlroots (\<^verbatim>\<open>check_headers.py\<close>)\<close>

text \<open>
  The script resolves six protocol documents below two base directories and
  either regenerates their server headers into the include directory
  (\<^verbatim>\<open>generate\<close>) or checks that the headers found there are the ones
  \<^verbatim>\<open>wayland-scanner\<close> writes today (\<^verbatim>\<open>check\<close>).

  Everything the script touches outside of its own variables is made explicit:
  the include directory and the live temporary directories are part of a
  \<open>world\<close> record that every operation takes and returns, the two external
  programs are parameters, and every exception is a value on the left of a sum.
\<close>

subsection \<open>Paths (\<^verbatim>\<open>pathlib.Path\<close>)\<close>

text \<open>
  A path is the list of its \<^verbatim>\<open>parts\<close>, as \<^verbatim>\<open>pathlib.PurePosixPath\<close> keeps
  it: the root (\<^verbatim>\<open>/\<close>, or \<^verbatim>\<open>//\<close> for exactly two leading slashes) first
  when the path is absolute, then the components, with empty components and
  \<^verbatim>\<open>.\<close> dropped.
\<close>

type_synonym path = "string list"

fun split_sep :: "string \<Rightarrow> string list" where
  "split_sep [] = [[]]"
| "split_sep (c # cs) =
     (if c = CHR ''/'' then [] # split_sep cs
      else (case split_sep cs of [] \<Rightarrow> [[c]] | w # ws \<Rightarrow> (c # w) # ws))"

definition root_of :: "string \<Rightarrow> string list" where
  "root_of s =
     (if take 2 s = ''//'' \<and> take 3 s \<noteq> ''///'' then [''//'']
      else if take 1 s = ''/'' then [''/'']
      else [])"

definition Path :: "string \<Rightarrow> path" where
  "Path s = root_of s @ filter (\<lambda>p. p \<noteq> [] \<and> p \<noteq> ''.'') (split_sep s)"

text \<open>\<^verbatim>\<open>base / rel\<close>: an absolute right operand replaces the left one.\<close>

definition joinpath :: "path \<Rightarrow> string \<Rightarrow> path" where
  "joinpath base rel = (if root_of rel \<noteq> [] then Path rel else base @ Path rel)"

text \<open>\<^verbatim>\<open>p.name\<close>: the last part, empty for the empty path and for a bare root.\<close>

definition name :: "path \<Rightarrow> string" where
  "name p =
     (case rev p of
        [] \<Rightarrow> []
      | x # xs \<Rightarrow> if xs = [] \<and> (x = ''/'' \<or> x = ''//'') then [] else x)"

text \<open>\<^verbatim>\<open>s.rfind(c)\<close>, with \<open>None\<close> for Python's \<open>-1\<close>.\<close>

definition rfind :: "char \<Rightarrow> string \<Rightarrow> nat option" where
  "rfind c s =
     (case filter (\<lambda>i. s ! i = c) (rev [0..<length s]) of
        [] \<Rightarrow> None
      | i # _ \<Rightarrow> Some i)"

text \<open>
  \<^verbatim>\<open>p.stem\<close>: the name without its last suffix. The dot counts as the start of
  a suffix only when it is neither the first nor the last character of the
  name (\<^verbatim>\<open>0 < i < len(name) - 1\<close>).
\<close>

definition stem :: "path \<Rightarrow> string" where
  "stem p =
     (let nm = name p in
      case rfind CHR ''.'' nm of
        None \<Rightarrow> nm
      | Some i \<Rightarrow> if 0 < i \<and> i + 1 < length nm then take i nm else nm)"

subsection \<open>Exceptions\<close>

text \<open>
  The script raises \<^verbatim>\<open>ValueError\<close> with a formatted message; the message is
  kept as its template together with the values interpolated into it. The two
  lists of the first message are built with \<^verbatim>\<open>list(set)\<close>, whose order Python
  leaves open, so they are kept as sets.
\<close>

datatype message =
    Unexpected_protocol_files "string set" "string set"
      \<comment> \<open>\<^verbatim>\<open>Unexpected protocol files: {..}, Extra files: {..}\<close>\<close>
  | Mismatch_line_count string
      \<comment> \<open>\<^verbatim>\<open>Mismatch line count in {name}\<close>\<close>
  | Mismatch_in_line string nat
      \<comment> \<open>\<^verbatim>\<open>Mismatch in {name} in line {i}\<close>\<close>
  | Wayland_dir_does_not_exist "path option"
      \<comment> \<open>\<^verbatim>\<open>Wayland protocols directory does not exist: {dir}\<close>\<close>
  | Wlroots_dir_does_not_exist path
      \<comment> \<open>\<^verbatim>\<open>Wlroots directory does not exist: {dir}\<close>\<close>
  | Protocol_does_not_exist path
      \<comment> \<open>\<^verbatim>\<open>Protocol does not exist: {protocol}\<close>\<close>

datatype error =
    ValueError message
  | CalledProcessError
      \<comment> \<open>a child process ran and exited with a non-zero status\<close>
  | FileNotFoundError
      \<comment> \<open>a file to open, or the program to run, is not there\<close>
  | PermissionError
      \<comment> \<open>the program to run is there and may not be executed\<close>
  | UnicodeDecodeError
      \<comment> \<open>bytes that are not UTF-8\<close>
  | SystemExit nat
      \<comment> \<open>\<^verbatim>\<open>argparse\<close> rejecting the command line\<close>

subsection \<open>Child processes (\<^verbatim>\<open>subprocess.check_output\<close>)\<close>

text \<open>
  What running an external program can come to: it ran and exited with status
  zero (carrying what it produced), it ran and exited with another status
  (also when a signal ended it), it could not be started because the program
  is not installed, or it could not be started because the file found may not
  be executed. \<^verbatim>\<open>check_output\<close> returns in the first case and raises
  \<^verbatim>\<open>CalledProcessError\<close> in the second, \<^verbatim>\<open>FileNotFoundError\<close> in the third
  and \<^verbatim>\<open>PermissionError\<close> in the fourth.
\<close>

datatype 'a run = Completed 'a | NonZeroExit | NotStarted | NotExecutable

fun check_output :: "'a run \<Rightarrow> error + 'a" where
  "check_output (Completed out) = Inr out"
| "check_output NonZeroExit = Inl CalledProcessError"
| "check_output NotStarted = Inl FileNotFoundError"
| "check_output NotExecutable = Inl PermissionError"

subsection \<open>\<^verbatim>\<open>get_wayland_protocols_dir\<close>\<close>

text \<open>
  A \<open>string\<close> of this theory is a sequence of bytes; a Python \<^verbatim>\<open>str\<close> in
  UTF-8. \<^verbatim>\<open>bytes.decode()\<close> decodes UTF-8 strictly: a lead byte says how many
  continuation bytes follow it, and a lead byte that is none, a continuation
  byte that is missing, an overlong form, a surrogate or a value above U+10FFFF
  raises \<^verbatim>\<open>UnicodeDecodeError\<close> (here \<open>None\<close>). The result keeps each
  character as its code point together with the bytes it was read from.
\<close>

definition width :: "nat \<Rightarrow> nat" where
  "width n =
     (if n < 0x80 then 1
      else if 0xC2 \<le> n \<and> n \<le> 0xDF then 2
      else if 0xE0 \<le> n \<and> n \<le> 0xEF then 3
      else if 0xF0 \<le> n \<and> n \<le> 0xF4 then 4
      else 0)"

definition lead_bits :: "nat \<Rightarrow> nat" where
  "lead_bits n =
     (if n < 0x80 then n
      else if n \<le> 0xDF then n - 0xC0
      else if n \<le> 0xEF then n - 0xE0
      else n - 0xF0)"

definition continuation :: "char \<Rightarrow> bool" where
  "continuation c = (0x80 \<le> (of_char c :: nat) \<and> (of_char c :: nat) \<le> 0xBF)"

definition low6 :: "char \<Rightarrow> nat" where
  "low6 c = of_char c - 0x80"

text \<open>
  The range of the second byte is narrower after four lead bytes: \<^verbatim>\<open>E0\<close> and
  \<^verbatim>\<open>F0\<close> (overlong forms), \<^verbatim>\<open>ED\<close> (surrogates), \<^verbatim>\<open>F4\<close> (above U+10FFFF).
\<close>

definition second_ok :: "nat \<Rightarrow> string \<Rightarrow> bool" where
  "second_ok n tail =
     (case tail of
        [] \<Rightarrow> True
      | b # _ \<Rightarrow>
          (let m = of_char b :: nat in
           if n = 0xE0 then 0xA0 \<le> m
           else if n = 0xED then m \<le> 0x9F
           else if n = 0xF0 then 0x90 \<le> m
           else if n = 0xF4 then m \<le> 0x8F
           else True))"

fun decode :: "string \<Rightarrow> (nat \<times> string) list option" where
  "decode [] = Some []"
| "decode (a # rest) =
     (let n = of_char a :: nat;
          k = width n;
          tail = take (k - 1) rest
      in if k = 0 \<or> length tail < k - 1 \<or> \<not> list_all continuation tail
            \<or> \<not> second_ok n tail
         then None
         else map_option
                ((#) (foldl (\<lambda>v c. v * 64 + low6 c) (lead_bits n) tail, a # tail))
                (decode (drop (k - 1) rest)))"

text \<open>
  \<^verbatim>\<open>str.strip()\<close> removes leading and trailing white space: the characters
  for which \<^verbatim>\<open>str.isspace()\<close> holds.
\<close>

definition isspace :: "nat \<Rightarrow> bool" where
  "isspace n =
     ((0x09 \<le> n \<and> n \<le> 0x0D) \<or> (0x1C \<le> n \<and> n \<le> 0x20)
      \<or> n = 0x85 \<or> n = 0xA0 \<or> n = 0x1680
      \<or> (0x2000 \<le> n \<and> n \<le> 0x200A)
      \<or> n = 0x2028 \<or> n = 0x2029 \<or> n = 0x202F \<or> n = 0x205F \<or> n = 0x3000)"

definition strip_with :: "('a \<Rightarrow> bool) \<Rightarrow> 'a list \<Rightarrow> 'a list" where
  "strip_with P s = rev (dropWhile P (rev (dropWhile P s)))"

text \<open>
  The argument is the outcome of running
  \<^verbatim>\<open>pkgconf --variable=pkgdatadir wayland-protocols\<close>, carrying the bytes of
  its standard output. Only \<^verbatim>\<open>CalledProcessError\<close> is caught: the other
  errors of \<^verbatim>\<open>check_output\<close> and the error of \<^verbatim>\<open>decode\<close> leave the function.
\<close>

definition get_wayland_protocols_dir :: "string run \<Rightarrow> error + path option" where
  "get_wayland_protocols_dir pkgconf =
     (case check_output pkgconf of
        Inl CalledProcessError \<Rightarrow> Inr None
      | Inl e \<Rightarrow> Inl e
      | Inr out \<Rightarrow>
          (case decode out of
             None \<Rightarrow> Inl UnicodeDecodeError
           | Some decoded \<Rightarrow>
               (let output = concat (map snd (strip_with (\<lambda>ch. isspace (fst ch)) decoded))
                in if output \<noteq> [] then Inr (Some (Path output)) else Inr None)))"

subsection \<open>The world: include directory, temporary directories, standard output\<close>

text \<open>
  A text file is the list of lines \<^verbatim>\<open>readlines()\<close> returns for it. A directory
  lists its files by name; the include directory \<^verbatim>\<open>INCLUDE_PATH\<close> is taken to
  exist and to hold readable text files. Temporary directories are kept apart
  from it, each under a number standing for its random name.
\<close>

type_synonym lines = "string list"
type_synonym directory = "(string \<times> lines) list"

record world =
  include_dir :: directory
  tmp_dirs :: "(nat \<times> directory) list"
  stdout :: "string list"

datatype dirref = INCLUDE_PATH | TmpDir nat

fun get_dir :: "dirref \<Rightarrow> world \<Rightarrow> directory option" where
  "get_dir INCLUDE_PATH w = Some (include_dir w)"
| "get_dir (TmpDir d) w = map_of (tmp_dirs w) d"

fun put_dir :: "dirref \<Rightarrow> directory \<Rightarrow> world \<Rightarrow> world" where
  "put_dir INCLUDE_PATH dir w = w\<lparr>include_dir := dir\<rparr>"
| "put_dir (TmpDir d) dir w = w\<lparr>tmp_dirs := AList.update d dir (tmp_dirs w)\<rparr>"

text \<open>\<^verbatim>\<open>path.open()\<close> followed by \<^verbatim>\<open>f.readlines()\<close>.\<close>

definition readlines :: "dirref \<times> string \<Rightarrow> world \<Rightarrow> error + lines" where
  "readlines file w =
     (case get_dir (fst file) w of
        None \<Rightarrow> Inl FileNotFoundError
      | Some dir \<Rightarrow>
          (case map_of dir (snd file) of
             None \<Rightarrow> Inl FileNotFoundError
           | Some ls \<Rightarrow> Inr ls))"

text \<open>
  \<^verbatim>\<open>tempfile.TemporaryDirectory()\<close> as a context manager: entering creates an
  empty directory under a name no live temporary directory has, leaving the
  block removes it with all it holds, whether the block returned or raised.
\<close>

definition fresh :: "nat list \<Rightarrow> nat" where
  "fresh ks = Suc (fold max ks 0)"

definition mkdtemp :: "world \<Rightarrow> nat \<times> world" where
  "mkdtemp w =
     (let d = fresh (map fst (tmp_dirs w))
      in (d, w\<lparr>tmp_dirs := tmp_dirs w @ [(d, [])]\<rparr>))"

definition cleanup :: "nat \<Rightarrow> world \<Rightarrow> world" where
  "cleanup d w = w\<lparr>tmp_dirs := AList.delete d (tmp_dirs w)\<rparr>"

definition with_TemporaryDirectory ::
  "(nat \<Rightarrow> world \<Rightarrow> (error + 'a) \<times> world) \<Rightarrow> world \<Rightarrow> (error + 'a) \<times> world" where
  "with_TemporaryDirectory body w =
     (let (d, w1) = mkdtemp w;
          (r, w2) = body d w1
      in (r, cleanup d w2))"

subsection \<open>\<^verbatim>\<open>header_filename\<close> and \<^verbatim>\<open>generate_protocol_header\<close>\<close>

definition header_filename :: "path \<Rightarrow> string" where
  "header_filename xml_file = stem xml_file @ ''-protocol.h''"

text \<open>
  The generator \<^verbatim>\<open>wayland-scanner server-header <input> <output>\<close> is a
  parameter: what it comes to on each input document, carrying the lines it
  writes when it exits with status zero. It is a function of the document, so
  two runs on one document write the same lines. A run that succeeds creates or
  overwrites the output file; a run that does not leaves the world as it was,
  and so does a run whose output directory is not there.
\<close>

type_synonym scanner = "path \<Rightarrow> lines run"

definition wayland_scanner ::
  "scanner \<Rightarrow> path \<Rightarrow> dirref \<times> string \<Rightarrow> world \<Rightarrow> unit run \<times> world" where
  "wayland_scanner sc input_xml output_path w =
     (case sc input_xml of
        Completed ls \<Rightarrow>
          (case get_dir (fst output_path) w of
             None \<Rightarrow> (NonZeroExit, w)
           | Some dir \<Rightarrow>
               (Completed (),
                put_dir (fst output_path) (AList.update (snd output_path) ls dir) w))
      | NonZeroExit \<Rightarrow> (NonZeroExit, w)
      | NotStarted \<Rightarrow> (NotStarted, w)
      | NotExecutable \<Rightarrow> (NotExecutable, w))"

definition generate_protocol_header ::
  "scanner \<Rightarrow> path \<Rightarrow> dirref \<Rightarrow> world \<Rightarrow> (error + dirref \<times> string) \<times> world" where
  "generate_protocol_header sc input_xml output_dir w =
     (let output_path = (output_dir, header_filename input_xml);
          (ran, w') = wayland_scanner sc input_xml output_path w
      in case check_output ran of
           Inl e \<Rightarrow> (Inl e, w')
         | Inr _ \<Rightarrow> (Inr output_path, w'))"

subsection \<open>\<^verbatim>\<open>check\<close>\<close>

text \<open>
  The inner loop over \<^verbatim>\<open>enumerate(zip(generated_header, protocol_header))\<close>:
  the first index at which the two lines differ, with both lines.
\<close>

fun first_mismatch :: "nat \<Rightarrow> lines \<Rightarrow> lines \<Rightarrow> (nat \<times> string \<times> string) option" where
  "first_mismatch i (generated_line # gs) (line # ls) =
     (if generated_line \<noteq> line then Some (i, generated_line, line)
      else first_mismatch (Suc i) gs ls)"
| "first_mismatch i _ _ = None"

definition print2 :: "string \<Rightarrow> string \<Rightarrow> world \<Rightarrow> world" where
  "print2 a b w = w\<lparr>stdout := stdout w @ [a @ '' '' @ b]\<rparr>"

text \<open>The body of the loop over the documents, for one document.\<close>

definition check_protocol :: "scanner \<Rightarrow> path \<Rightarrow> world \<Rightarrow> (error + unit) \<times> world" where
  "check_protocol sc protocol_xml w =
     (case readlines (INCLUDE_PATH, header_filename protocol_xml) w of
        Inl e \<Rightarrow> (Inl e, w)
      | Inr protocol_header \<Rightarrow>
          (case with_TemporaryDirectory
                  (\<lambda>output_dir w1.
                     case generate_protocol_header sc protocol_xml (TmpDir output_dir) w1 of
                       (Inl e, w2) \<Rightarrow> (Inl e, w2)
                     | (Inr generated_file, w2) \<Rightarrow> (readlines generated_file w2, w2))
                  w of
             (Inl e, w3) \<Rightarrow> (Inl e, w3)
           | (Inr generated_header, w3) \<Rightarrow>
               if length protocol_header \<noteq> length generated_header
               then (Inl (ValueError (Mismatch_line_count (name protocol_xml))), w3)
               else
                 (case first_mismatch 0 generated_header protocol_header of
                    Some (i, generated_line, line) \<Rightarrow>
                      (Inl (ValueError (Mismatch_in_line (name protocol_xml) i)),
                       print2 ''Got:'' (strip_with (\<lambda>c. c = CHR 0x0A) line)
                         (print2 ''Expected:''
                            (strip_with (\<lambda>c. c = CHR 0x0A) generated_line) w3))
                  | None \<Rightarrow> (Inr (), w3))))"

fun check_loop :: "scanner \<Rightarrow> path list \<Rightarrow> world \<Rightarrow> (error + unit) \<times> world" where
  "check_loop sc [] w = (Inr (), w)"
| "check_loop sc (protocol_xml # rest) w =
     (case check_protocol sc protocol_xml w of
        (Inl e, w') \<Rightarrow> (Inl e, w')
      | (Inr _, w') \<Rightarrow> check_loop sc rest w')"

definition check :: "scanner \<Rightarrow> path list \<Rightarrow> world \<Rightarrow> (error + unit) \<times> world" where
  "check sc protocols w =
     (let expected_protocol_files = set (map header_filename protocols);
          protocol_files = set (map fst (include_dir w))
      in if expected_protocol_files \<noteq> protocol_files
         then (Inl (ValueError (Unexpected_protocol_files
                      (expected_protocol_files - protocol_files)
                      (protocol_files - expected_protocol_files))), w)
         else check_loop sc protocols w)"

subsection \<open>\<^verbatim>\<open>check\<close> with its effects written down\<close>

text \<open>
  The world says what is there after a step, not what the step did on the way:
  a temporary directory created and removed leaves no mark, nor does a file
  that was read or a generator that was run. To state in which order
  \<^verbatim>\<open>check\<close> does things, the same code is given once more over a world
  paired with the list of the effects so far, each operation adding its own:
  \<^verbatim>\<open>INCLUDE_PATH.iterdir()\<close>, \<^verbatim>\<open>path.open()\<close>, entering and leaving the
  \<^verbatim>\<open>TemporaryDirectory\<close> block, and the call of \<^verbatim>\<open>subprocess.check_output\<close>
  on \<^verbatim>\<open>wayland-scanner\<close>.
\<close>

datatype event =
    Listed dirref
  | Opened "dirref \<times> string"
  | Created_tmp nat
  | Removed_tmp nat
  | Invoked_scanner path "dirref \<times> string"

type_synonym traced = "world \<times> event list"

definition readlines_traced :: "dirref \<times> string \<Rightarrow> traced \<Rightarrow> (error + lines) \<times> traced" where
  "readlines_traced file s = (readlines file (fst s), (fst s, snd s @ [Opened file]))"

definition with_TemporaryDirectory_traced ::
  "(nat \<Rightarrow> traced \<Rightarrow> (error + 'a) \<times> traced) \<Rightarrow> traced \<Rightarrow> (error + 'a) \<times> traced" where
  "with_TemporaryDirectory_traced body s =
     (let (d, w1) = mkdtemp (fst s);
          (r, s2) = body d (w1, snd s @ [Created_tmp d])
      in (r, (cleanup d (fst s2), snd s2 @ [Removed_tmp d])))"

definition generate_protocol_header_traced ::
  "scanner \<Rightarrow> path \<Rightarrow> dirref \<Rightarrow> traced \<Rightarrow> (error + dirref \<times> string) \<times> traced" where
  "generate_protocol_header_traced sc input_xml output_dir s =
     (let output_path = (output_dir, header_filename input_xml);
          (ran, w') = wayland_scanner sc input_xml output_path (fst s);
          s' = (w', snd s @ [Invoked_scanner input_xml output_path])
      in case check_output ran of
           Inl e \<Rightarrow> (Inl e, s')
         | Inr _ \<Rightarrow> (Inr output_path, s'))"

definition check_protocol_traced ::
  "scanner \<Rightarrow> path \<Rightarrow> traced \<Rightarrow> (error + unit) \<times> traced" where
  "check_protocol_traced sc protocol_xml s =
     (case readlines_traced (INCLUDE_PATH, header_filename protocol_xml) s of
        (Inl e, s0) \<Rightarrow> (Inl e, s0)
      | (Inr protocol_header, s0) \<Rightarrow>
          (case with_TemporaryDirectory_traced
                  (\<lambda>output_dir s1.
                     case generate_protocol_header_traced sc protocol_xml (TmpDir output_dir) s1 of
                       (Inl e, s2) \<Rightarrow> (Inl e, s2)
                     | (Inr generated_file, s2) \<Rightarrow> readlines_traced generated_file s2)
                  s0 of
             (Inl e, s3) \<Rightarrow> (Inl e, s3)
           | (Inr generated_header, s3) \<Rightarrow>
               if length protocol_header \<noteq> length generated_header
               then (Inl (ValueError (Mismatch_line_count (name protocol_xml))), s3)
               else
                 (case first_mismatch 0 generated_header protocol_header of
                    Some (i, generated_line, line) \<Rightarrow>
                      (Inl (ValueError (Mismatch_in_line (name protocol_xml) i)),
                       (print2 ''Got:'' (strip_with (\<lambda>c. c = CHR 0x0A) line)
                          (print2 ''Expected:''
                             (strip_with (\<lambda>c. c = CHR 0x0A) generated_line) (fst s3)),
                        snd s3))
                  | None \<Rightarrow> (Inr (), s3))))"

fun check_loop_traced :: "scanner \<Rightarrow> path list \<Rightarrow> traced \<Rightarrow> (error + unit) \<times> traced" where
  "check_loop_traced sc [] s = (Inr (), s)"
| "check_loop_traced sc (protocol_xml # rest) s =
     (case check_protocol_traced sc protocol_xml s of
        (Inl e, s') \<Rightarrow> (Inl e, s')
      | (Inr _, s') \<Rightarrow> check_loop_traced sc rest s')"

definition check_traced :: "scanner \<Rightarrow> path list \<Rightarrow> traced \<Rightarrow> (error + unit) \<times> traced" where
  "check_traced sc protocols s =
     (let expected_protocol_files = set (map header_filename protocols);
          protocol_files = set (map fst (include_dir (fst s)));
          s0 = (fst s, snd s @ [Listed INCLUDE_PATH])
      in if expected_protocol_files \<noteq> protocol_files
         then (Inl (ValueError (Unexpected_protocol_files
                      (expected_protocol_files - protocol_files)
                      (protocol_files - expected_protocol_files))), s0)
         else check_loop_traced sc protocols s0)"

subsection \<open>\<^verbatim>\<open>generate\<close>\<close>

fun generate :: "scanner \<Rightarrow> path list \<Rightarrow> world \<Rightarrow> (error + unit) \<times> world" where
  "generate sc [] w = (Inr (), w)"
| "generate sc (protocol_xml # rest) w =
     (case generate_protocol_header sc protocol_xml INCLUDE_PATH w of
        (Inl e, w') \<Rightarrow> (Inl e, w')
      | (Inr _, w') \<Rightarrow> generate sc rest w')"

subsection \<open>\<^verbatim>\<open>parse_args\<close>\<close>

definition WAYLAND_PROCOTOLS :: "string list" where
  "WAYLAND_PROCOTOLS =
     [''stable/xdg-shell/xdg-shell.xml'',
      ''unstable/idle-inhibit/idle-inhibit-unstable-v1.xml'',
      ''unstable/pointer-constraints/pointer-constraints-unstable-v1.xml'']"

definition WLROOTS_PROTOCOLS :: "string list" where
  "WLROOTS_PROTOCOLS =
     [''protocol/idle.xml'',
      ''protocol/wlr-output-power-management-unstable-v1.xml'',
      ''protocol/wlr-layer-shell-unstable-v1.xml'']"

text \<open>
  The command line, as the options it gives: the value of \<^verbatim>\<open>--wayland-dir\<close>
  and of \<^verbatim>\<open>--wlroots-dir\<close> when present, and whether \<^verbatim>\<open>--generate\<close> is.
\<close>

record argv =
  opt_wayland_dir :: "string option"
  opt_wlroots_dir :: "string option"
  opt_generate :: bool

text \<open>
  \<^verbatim>\<open>exists\<close> is the file system's answer to \<^verbatim>\<open>Path.exists()\<close>. The default of
  \<^verbatim>\<open>--wayland-dir\<close> is computed while the parser is built, before the command
  line is read; \<^verbatim>\<open>--wlroots-dir\<close> is required, and \<^verbatim>\<open>argparse\<close> exits with
  status 2 without it.
\<close>

definition parse_args ::
  "(path \<Rightarrow> bool) \<Rightarrow> string run \<Rightarrow> argv \<Rightarrow> error + path list \<times> bool" where
  "parse_args exists pkgconf args =
     (case get_wayland_protocols_dir pkgconf of
        Inl e \<Rightarrow> Inl e
      | Inr default_dir \<Rightarrow>
          (case opt_wlroots_dir args of
             None \<Rightarrow> Inl (SystemExit 2)
           | Some wlroots_arg \<Rightarrow>
               (let wayland_dir =
                      (case opt_wayland_dir args of
                         Some s \<Rightarrow> Some (Path s)
                       | None \<Rightarrow> default_dir);
                    wlroots_dir = Path wlroots_arg
                in case wayland_dir of
                     None \<Rightarrow> Inl (ValueError (Wayland_dir_does_not_exist None))
                   | Some wd \<Rightarrow>
                       if \<not> exists wd
                       then Inl (ValueError (Wayland_dir_does_not_exist (Some wd)))
                       else if \<not> exists wlroots_dir
                       then Inl (ValueError (Wlroots_dir_does_not_exist wlroots_dir))
                       else
                         (let protocols =
                                map (joinpath wd) WAYLAND_PROCOTOLS
                                @ map (joinpath wlroots_dir) WLROOTS_PROTOCOLS
                          in case find (\<lambda>protocol. \<not> exists protocol) protocols of
                               Some protocol \<Rightarrow>
                                 Inl (ValueError (Protocol_does_not_exist protocol))
                             | None \<Rightarrow> Inr (protocols, opt_generate args)))))"

subsection \<open>Example inputs\<close>

text \<open>
  Three documents \<open>A\<close>, \<open>B\<close> and \<open>C\<close>, a second document with the stem
  \<open>A\<close> in another directory, and a generator that writes two lines for \<open>A\<close>,
  three for \<open>B\<close>, one for \<open>C\<close>, another two for the second \<open>A\<close>, and exits
  with a non-zero status on anything else.
\<close>

definition doc_A :: path where "doc_A = [''protocol'', ''A.xml'']"
definition doc_B :: path where "doc_B = [''protocol'', ''B.xml'']"
definition doc_C :: path where "doc_C = [''protocol'', ''C.xml'']"
definition doc_A' :: path where "doc_A' = [''staging'', ''A.xml'']"

definition lines_A :: lines where
  "lines_A = [''struct a;\<newline>'', ''void a_init(void);\<newline>'']"
definition lines_B :: lines where
  "lines_B = [''struct b;\<newline>'', ''void b_init(void);\<newline>'', ''void b_done(void);\<newline>'']"
definition lines_C :: lines where
  "lines_C = [''struct c;\<newline>'']"
definition lines_A' :: lines where
  "lines_A' = [''struct a;\<newline>'', ''void a_start(void);\<newline>'']"

definition example_scanner :: scanner where
  "example_scanner p =
     (if p = doc_A then Completed lines_A
      else if p = doc_B then Completed lines_B
      else if p = doc_C then Completed lines_C
      else if p = doc_A' then Completed lines_A'
      else NonZeroExit)"

text \<open>A generator that writes eleven lines for every document.\<close>

definition eleven_scanner :: scanner where
  "eleven_scanner p = Completed (replicate 11 ''/* generated */\<newline>'')"

text \<open>A generator that writes something for every document.\<close>

definition total_scanner :: scanner where
  "total_scanner p =
     (if p = doc_A' then Completed lines_A' else Completed lines_A)"

text \<open>
  A world with the include directory given, one temporary directory of some
  other program alive, and nothing printed.
\<close>

definition world_with :: "directory \<Rightarrow> world" where
  "world_with dir =
     \<lparr>include_dir = dir, tmp_dirs = [(7, [(''scratch.txt'', [])])], stdout = []\<rparr>"

text \<open>The include directory holding the headers of \<open>A\<close> and \<open>B\<close> as generated.\<close>

definition include_AB :: directory where
  "include_AB = [(''A-protocol.h'', lines_A), (''B-protocol.h'', lines_B)]"

text \<open>The same with the second line of the header of \<open>B\<close> edited by hand.\<close>

definition include_AB_edited :: directory where
  "include_AB_edited =
     [(''A-protocol.h'', lines_A),
      (''B-protocol.h'',
        [''struct b;\<newline>'', ''int b_init(void);\<newline>'', ''void b_done(void);\<newline>''])]"

text \<open>An include directory whose header of \<open>A\<close> has ten lines.\<close>

definition include_A_ten :: directory where
  "include_A_ten = [(''A-protocol.h'', replicate 10 ''/* generated */\<newline>'')]"

text \<open>
  A file system in which the two base directories \<^verbatim>\<open>/usr/share/wayland-protocols\<close>
  and \<^verbatim>\<open>/src/wlroots\<close> exist with everything below them.
\<close>

definition example_exists :: "path \<Rightarrow> bool" where
  "example_exists p =
     (take 4 p = [''/'', ''usr'', ''share'', ''wayland-protocols'']
      \<or> take 3 p = [''/'', ''src'', ''wlroots''])"

definition example_argv :: argv where
  "example_argv =
     \<lparr>opt_wayland_dir = None, opt_wlroots_dir = Some ''/src/wlroots'', opt_generate = False\<rparr>"

section \<open>Properties\<close>

subsection \<open>The temporary directory block\<close>

text \<open>The name chosen for a new temporary directory is not in use.\<close>

lemma fold_max_ge: "a \<le> fold max ks (a::nat)"
  by (induction ks arbitrary: a) (auto intro: order_trans[OF max.cobounded2])

lemma fold_max_mem: "k \<in> set ks \<Longrightarrow> k \<le> fold max ks (a::nat)"
proof (induction ks arbitrary: a)
  case Nil
  then show ?case by simp
next
  case (Cons x xs)
  show ?case
  proof (cases "k = x")
    case True
    have "x \<le> max x a" by simp
    also have "\<dots> \<le> fold max xs (max x a)" by (rule fold_max_ge)
    finally show ?thesis using True by simp
  next
    case False
    with Cons show ?thesis by simp
  qed
qed

lemma fresh_notin: "fresh ks \<notin> set ks"
proof
  assume "fresh ks \<in> set ks"
  then have "fresh ks \<le> fold max ks 0" by (rule fold_max_mem)
  then show False by (simp add: fresh_def)
qed

lemma map_of_fresh: "map_of tds (fresh (map fst tds)) = None"
  using fresh_notin [of "map fst tds"] by (simp add: map_of_eq_None_iff)

lemma scan_in_tmp:
  "with_TemporaryDirectory
     (\<lambda>output_dir w1.
        case generate_protocol_header sc p (TmpDir output_dir) w1 of
          (Inl e, w2) \<Rightarrow> (Inl e, w2)
        | (Inr generated_file, w2) \<Rightarrow> (readlines generated_file w2, w2)) w
   = (check_output (sc p), w)"
proof -
  define d where "d = fresh (map fst (tmp_dirs w))"
  define w1 where "w1 = w\<lparr>tmp_dirs := tmp_dirs w @ [(d, [])]\<rparr>"
  have nd: "d \<notin> fst ` set (tmp_dirs w)"
    unfolding d_def using fresh_notin [of "map fst (tmp_dirs w)"] by simp
  have mk: "mkdtemp w = (d, w1)"
    by (simp add: mkdtemp_def d_def w1_def Let_def)
  have "AList.delete d (tmp_dirs w @ [(d, v)]) = AList.delete d (tmp_dirs w) @ []" for v
    by (simp add: AList.delete_eq)
  then have del: "AList.delete d (tmp_dirs w @ [(d, v)]) = tmp_dirs w" for v
    using nd by simp
  have undo: "cleanup d w1 = w"
    by (simp add: cleanup_def w1_def del)
  have get: "get_dir (TmpDir d) w1 = Some []"
    using map_of_fresh [of "tmp_dirs w"] by (simp add: w1_def d_def map_add_def)
  show ?thesis
  proof (cases "sc p")
    case (Completed ls)
    define w2 where
      "w2 = w1\<lparr>tmp_dirs := AList.update d [(header_filename p, ls)] (tmp_dirs w1)\<rparr>"
    have gen: "generate_protocol_header sc p (TmpDir d) w1
                 = (Inr (TmpDir d, header_filename p), w2)"
      using Completed get
      by (simp add: generate_protocol_header_def wayland_scanner_def w2_def)
    have rd: "readlines (TmpDir d, header_filename p) w2 = Inr ls"
      by (simp add: readlines_def w2_def AList.update_conv')
    have "cleanup d w2 = w"
      by (simp add: cleanup_def w2_def w1_def AList.delete_update_same del)
    with Completed mk gen rd show ?thesis
      by (simp add: with_TemporaryDirectory_def)
  next
    case NonZeroExit
    then have "generate_protocol_header sc p (TmpDir d) w1 = (Inl CalledProcessError, w1)"
      by (simp add: generate_protocol_header_def wayland_scanner_def)
    with NonZeroExit mk undo show ?thesis
      by (simp add: with_TemporaryDirectory_def)
  next
    case NotStarted
    then have "generate_protocol_header sc p (TmpDir d) w1 = (Inl FileNotFoundError, w1)"
      by (simp add: generate_protocol_header_def wayland_scanner_def)
    with NotStarted mk undo show ?thesis
      by (simp add: with_TemporaryDirectory_def)
  next
    case NotExecutable
    then have "generate_protocol_header sc p (TmpDir d) w1 = (Inl PermissionError, w1)"
      by (simp add: generate_protocol_header_def wayland_scanner_def)
    with NotExecutable mk undo show ?thesis
      by (simp add: with_TemporaryDirectory_def)
  qed
qed

text \<open>
  What the loop body comes to: the temporary directory is gone whatever happened
  inside the block, so the body is a function of the checked-in header and of
  what the generator writes for the document.
\<close>

lemma check_protocol_eq:
  "check_protocol sc p w =
     (case map_of (include_dir w) (header_filename p) of
        None \<Rightarrow> (Inl FileNotFoundError, w)
      | Some h \<Rightarrow>
          (case check_output (sc p) of
             Inl e \<Rightarrow> (Inl e, w)
           | Inr g \<Rightarrow>
               if length h \<noteq> length g
               then (Inl (ValueError (Mismatch_line_count (name p))), w)
               else
                 (case first_mismatch 0 g h of
                    Some (i, gl, l) \<Rightarrow>
                      (Inl (ValueError (Mismatch_in_line (name p) i)),
                       w\<lparr>stdout := stdout w @
                            [''Expected: '' @ strip_with (\<lambda>c. c = CHR 0x0A) gl,
                             ''Got: '' @ strip_with (\<lambda>c. c = CHR 0x0A) l]\<rparr>)
                  | None \<Rightarrow> (Inr (), w))))"
  unfolding check_protocol_def scan_in_tmp
  by (simp add: readlines_def print2_def split: option.splits sum.splits)

subsection \<open>The loop over the documents\<close>

lemma check_protocol_frame:
  "include_dir (snd (check_protocol sc p w)) = include_dir w
   \<and> tmp_dirs (snd (check_protocol sc p w)) = tmp_dirs w"
  by (simp add: check_protocol_eq split: option.splits sum.splits prod.splits)

lemma check_protocol_success:
  "check_protocol sc p w = (Inr u, w') \<Longrightarrow> w' = w"
  by (auto simp: check_protocol_eq split: option.splits sum.splits prod.splits if_splits)

lemma check_loop_frame:
  "include_dir (snd (check_loop sc ps w)) = include_dir w
   \<and> tmp_dirs (snd (check_loop sc ps w)) = tmp_dirs w"
proof (induction ps arbitrary: w)
  case Nil
  show ?case by simp
next
  case (Cons p ps)
  obtain r w' where step: "check_protocol sc p w = (r, w')"
    by (cases "check_protocol sc p w")
  with check_protocol_frame [of sc p w]
  have same: "include_dir w' = include_dir w" "tmp_dirs w' = tmp_dirs w"
    by simp_all
  show ?case
  proof (cases r)
    case (Inl e)
    with step same show ?thesis by simp
  next
    case (Inr u)
    with step same Cons.IH [of w'] show ?thesis by simp
  qed
qed

lemma check_loop_success:
  "check_loop sc ps w = (Inr u, w') \<Longrightarrow> w' = w"
proof (induction ps arbitrary: w)
  case Nil
  then show ?case by simp
next
  case (Cons p ps)
  obtain r w1 where step: "check_protocol sc p w = (r, w1)"
    by (cases "check_protocol sc p w")
  show ?case
  proof (cases r)
    case (Inl e)
    with step Cons.prems show ?thesis by simp
  next
    case (Inr v)
    with step have "w1 = w" by (auto dest: check_protocol_success)
    with step Inr Cons show ?thesis by simp
  qed
qed

lemma check_loop_append:
  "check_loop sc (ps @ qs) w =
     (case check_loop sc ps w of
        (Inl e, w') \<Rightarrow> (Inl e, w')
      | (Inr _, w') \<Rightarrow> check_loop sc qs w')"
  by (induction ps arbitrary: w) (auto split: prod.splits sum.splits)

lemma check_loop_pass:
  "(\<And>p. p \<in> set ps \<Longrightarrow> fst (check_protocol sc p w) = Inr ()) \<Longrightarrow> check_loop sc ps w = (Inr (), w)"
proof (induction ps)
  case Nil
  show ?case by simp
next
  case (Cons p ps)
  have "fst (check_protocol sc p w) = Inr ()"
    using Cons.prems by simp
  then have "check_protocol sc p w = (Inr (), w)"
    using check_protocol_success [of sc p w "()" "snd (check_protocol sc p w)"]
    by (cases "check_protocol sc p w") simp
  moreover have "check_loop sc ps w = (Inr (), w)"
    by (rule Cons.IH) (simp add: Cons.prems)
  ultimately show ?case by simp
qed

lemma first_mismatch_None:
  "length g = length h \<Longrightarrow> first_mismatch i g h = None \<longleftrightarrow> g = h"
  by (induction g h arbitrary: i rule: list_induct2) auto

lemma first_mismatch_Some:
  "length g = length h \<Longrightarrow> g \<noteq> h \<Longrightarrow>
   \<exists>k<length g. g ! k \<noteq> h ! k \<and> (\<forall>j<k. g ! j = h ! j)
      \<and> first_mismatch i g h = Some (i + k, g ! k, h ! k)"
proof (induction g h arbitrary: i rule: list_induct2)
  case Nil
  then show ?case by simp
next
  case (Cons x xs y ys)
  show ?case
  proof (cases "x = y")
    case False
    then have "0 < length (x # xs) \<and> (x # xs) ! 0 \<noteq> (y # ys) ! 0
       \<and> (\<forall>j<0. (x # xs) ! j = (y # ys) ! j)
       \<and> first_mismatch i (x # xs) (y # ys) = Some (i + 0, (x # xs) ! 0, (y # ys) ! 0)"
      by simp
    then show ?thesis by blast
  next
    case True
    with Cons.prems have "xs \<noteq> ys" by simp
    from Cons.IH [OF this, of "Suc i"] obtain k where k:
      "k < length xs" "xs ! k \<noteq> ys ! k" "\<forall>j<k. xs ! j = ys ! j"
      "first_mismatch (Suc i) xs ys = Some (Suc i + k, xs ! k, ys ! k)"
      by blast
    have "\<forall>j<Suc k. (x # xs) ! j = (y # ys) ! j"
      using True k(3) by (auto simp: less_Suc_eq_0_disj)
    with True k have "Suc k < length (x # xs) \<and> (x # xs) ! Suc k \<noteq> (y # ys) ! Suc k
       \<and> (\<forall>j<Suc k. (x # xs) ! j = (y # ys) ! j)
       \<and> first_mismatch i (x # xs) (y # ys) = Some (i + Suc k, (x # xs) ! Suc k, (y # ys) ! Suc k)"
      by simp
    then show ?thesis by blast
  qed
qed

subsection \<open>The example inputs evaluated\<close>

lemma header_filename_examples:
  "header_filename doc_A = ''A-protocol.h''"
  "header_filename doc_B = ''B-protocol.h''"
  "header_filename doc_C = ''C-protocol.h''"
  "header_filename doc_A' = ''A-protocol.h''"
  by (code_simp)+

lemma name_examples:
  "name doc_A = ''A.xml''" "name doc_B = ''B.xml''" "name doc_C = ''C.xml''"
  by (simp_all add: name_def doc_A_def doc_B_def doc_C_def)

lemma doc_distinct:
  "doc_A \<noteq> doc_B" "doc_A \<noteq> doc_C" "doc_B \<noteq> doc_C" "doc_B \<noteq> doc_A" "doc_C \<noteq> doc_A" "doc_C \<noteq> doc_B"
  "doc_A' \<noteq> doc_A" "doc_A' \<noteq> doc_B" "doc_A' \<noteq> doc_C"
  by (simp_all add: doc_A_def doc_B_def doc_C_def doc_A'_def)

subsection \<open>Temporary directories do not outlive the check of their document\<close>

text \<open>
  Claim C9. The temporary directory of a document is removed on every exit path.
  The block that owns it removes it whatever its body does, returning or
  raising: the directory is live when the body starts and is not once the block
  is left. So after the check of one document, and after \<^verbatim>\<open>check\<close> as a whole,
  the live temporary directories are the ones there were before, whether the
  result is success, a failure of the generator or a failed comparison.
\<close>

theorem check_removes_temporary_directory:
  "fst (mkdtemp w) \<in> fst ` set (tmp_dirs (snd (mkdtemp w)))
   \<and> fst (mkdtemp w) \<notin> fst ` set (tmp_dirs (snd (with_TemporaryDirectory body w)))
   \<and> tmp_dirs (snd (check_protocol sc p w)) = tmp_dirs w
   \<and> tmp_dirs (snd (check sc ps w)) = tmp_dirs w"
proof -
  have "fst (mkdtemp w) \<in> fst ` set (tmp_dirs (snd (mkdtemp w)))"
    by (simp add: mkdtemp_def Let_def)
  moreover
  have "fst (mkdtemp w) \<notin> fst ` set (tmp_dirs (snd (with_TemporaryDirectory body w)))"
    by (simp add: with_TemporaryDirectory_def cleanup_def AList.delete_notin_dom
        split: prod.splits)
  moreover
  have "tmp_dirs (snd (check_protocol sc p w)) = tmp_dirs w"
    by (simp add: check_protocol_frame)
  moreover
  have "tmp_dirs (snd (check sc ps w)) = tmp_dirs w"
    by (simp add: check_loop_frame check_def Let_def)
  ultimately show ?thesis by simp
qed

text \<open>
  The three exit paths on the examples: the generator fails on a document it
  does not know, the header of \<open>B\<close> differs from what is generated, and the
  headers of \<open>A\<close> and \<open>B\<close> pass. Each time the one temporary directory that
  was there before is what is left.
\<close>

theorem check_removes_temporary_directory_witness:
  "fst (check_protocol example_scanner [''protocol'', ''D.xml'']
          (world_with [(''D-protocol.h'', [])])) = Inl CalledProcessError
   \<and> tmp_dirs (snd (check_protocol example_scanner [''protocol'', ''D.xml'']
          (world_with [(''D-protocol.h'', [])]))) = [(7, [(''scratch.txt'', [])])]
   \<and> fst (check example_scanner [doc_A, doc_B] (world_with include_AB_edited))
        = Inl (ValueError (Mismatch_in_line ''B.xml'' 1))
   \<and> tmp_dirs (snd (check example_scanner [doc_A, doc_B] (world_with include_AB_edited)))
        = [(7, [(''scratch.txt'', [])])]
   \<and> fst (check example_scanner [doc_A, doc_B] (world_with include_AB)) = Inr ()
   \<and> tmp_dirs (snd (check example_scanner [doc_A, doc_B] (world_with include_AB)))
        = [(7, [(''scratch.txt'', [])])]"
proof -
  have hD: "header_filename [''protocol'', ''D.xml''] = ''D-protocol.h''"
    by code_simp
  have 1: "fst (check_protocol example_scanner [''protocol'', ''D.xml'']
          (world_with [(''D-protocol.h'', [])])) = Inl CalledProcessError"
    by (simp add: check_protocol_eq hD world_with_def example_scanner_def
        doc_A_def doc_B_def doc_C_def doc_A'_def)
  have 2: "fst (check example_scanner [doc_A, doc_B] (world_with include_AB_edited))
        = Inl (ValueError (Mismatch_in_line ''B.xml'' 1))"
    by (simp add: check_def check_protocol_eq header_filename_examples name_examples
        doc_distinct world_with_def include_AB_edited_def example_scanner_def
        lines_A_def lines_B_def)
  have 3: "fst (check example_scanner [doc_A, doc_B] (world_with include_AB)) = Inr ()"
    by (simp add: check_def check_protocol_eq header_filename_examples name_examples
        doc_distinct world_with_def include_AB_def example_scanner_def
        lines_A_def lines_B_def)
  have live: "tmp_dirs (world_with dir) = [(7, [(''scratch.txt'', [])])]" for dir
    by (simp add: world_with_def)
  have 4: "tmp_dirs (snd (check_protocol example_scanner [''protocol'', ''D.xml'']
          (world_with [(''D-protocol.h'', [])]))) = [(7, [(''scratch.txt'', [])])]"
    using check_removes_temporary_directory [where w = "world_with [(''D-protocol.h'', [])]" and sc = example_scanner
          and p = "[''protocol'', ''D.xml'']",
        THEN conjunct2, THEN conjunct2, THEN conjunct1]
    by (simp add: live)
  have 5: "tmp_dirs (snd (check example_scanner [doc_A, doc_B] (world_with include_AB_edited)))
        = [(7, [(''scratch.txt'', [])])]"
    using check_removes_temporary_directory [where w = "world_with include_AB_edited" and sc = example_scanner
          and ps = "[doc_A, doc_B]",
        THEN conjunct2, THEN conjunct2, THEN conjunct2]
    by (simp add: live)
  have 6: "tmp_dirs (snd (check example_scanner [doc_A, doc_B] (world_with include_AB)))
        = [(7, [(''scratch.txt'', [])])]"
    using check_removes_temporary_directory [where w = "world_with include_AB" and sc = example_scanner
          and ps = "[doc_A, doc_B]",
        THEN conjunct2, THEN conjunct2, THEN conjunct2]
    by (simp add: live)
  from 1 4 2 5 3 6 show ?thesis by (intro conjI)
qed

subsection \<open>The comparison of the two sets of file names\<close>

lemma check_output_not_ValueError: "check_output r \<noteq> Inl (ValueError m)"
  by (cases r) simp_all

lemma check_protocol_no_set_error:
  "fst (check_protocol sc p w) \<noteq> Inl (ValueError (Unexpected_protocol_files m x))"
proof (cases "check_output (sc p)")
  case (Inl e)
  with check_output_not_ValueError [of "sc p"] show ?thesis
    by (auto simp: check_protocol_eq split: option.splits)
next
  case (Inr g)
  then show ?thesis
    by (auto simp: check_protocol_eq split: option.splits)
qed

lemma check_loop_no_set_error:
  "fst (check_loop sc ps w) \<noteq> Inl (ValueError (Unexpected_protocol_files m x))"
proof (induction ps arbitrary: w)
  case Nil
  show ?case by simp
next
  case (Cons p ps)
  obtain r w' where step: "check_protocol sc p w = (r, w')"
    by (cases "check_protocol sc p w")
  show ?case
  proof (cases r)
    case (Inl e)
    with step check_protocol_no_set_error [of sc p w m x] show ?thesis by simp
  next
    case (Inr u)
    with step Cons.IH [of w'] show ?thesis by simp
  qed
qed

text \<open>
  Claim C2. When the set of expected header names (\<open><stem>-protocol.h\<close> for each
  document) is not the set of names in the include directory, \<^verbatim>\<open>check\<close> fails
  with the error that carries the expected names that are not there and the
  names there that are not expected, and changes nothing. When the two sets are
  equal, \<^verbatim>\<open>check\<close> does not fail with that error, whatever else happens.
\<close>

theorem check_reports_missing_and_extra:
  "(set (map header_filename ps) \<noteq> set (map fst (include_dir w)) \<longrightarrow>
      check sc ps w =
        (Inl (ValueError (Unexpected_protocol_files
               (set (map header_filename ps) - set (map fst (include_dir w)))
               (set (map fst (include_dir w)) - set (map header_filename ps)))), w))
   \<and> (set (map header_filename ps) = set (map fst (include_dir w)) \<longrightarrow>
      fst (check sc ps w) \<noteq> Inl (ValueError (Unexpected_protocol_files missing extra)))"
  by (simp add: check_def Let_def check_loop_no_set_error)

text \<open>
  The scenario of the specification: the headers of \<open>A\<close> and \<open>B\<close> are checked
  in and the documents are \<open>A\<close> and \<open>C\<close>. With the documents \<open>A\<close> and \<open>B\<close>
  the sets are equal and \<^verbatim>\<open>check\<close> succeeds.
\<close>

theorem check_reports_missing_and_extra_witness:
  "set (map header_filename [doc_A, doc_C]) \<noteq> set (map fst (include_dir (world_with include_AB)))
   \<and> check example_scanner [doc_A, doc_C] (world_with include_AB) =
       (Inl (ValueError (Unexpected_protocol_files {''C-protocol.h''} {''B-protocol.h''})),
        world_with include_AB)
   \<and> set (map header_filename [doc_A, doc_B]) = set (map fst (include_dir (world_with include_AB)))
   \<and> fst (check example_scanner [doc_A, doc_B] (world_with include_AB))
       \<noteq> Inl (ValueError (Unexpected_protocol_files {} {}))"
proof -
  have names: "set (map fst (include_dir (world_with include_AB)))
                 = {''A-protocol.h'', ''B-protocol.h''}"
    by (simp add: world_with_def include_AB_def)
  have differ: "set (map header_filename [doc_A, doc_C])
                  \<noteq> set (map fst (include_dir (world_with include_AB)))"
    unfolding names by (simp add: header_filename_examples doubleton_eq_iff)
  have same: "set (map header_filename [doc_A, doc_B])
                = set (map fst (include_dir (world_with include_AB)))"
    unfolding names by (simp add: header_filename_examples)
  have missing: "set (map header_filename [doc_A, doc_C])
                   - set (map fst (include_dir (world_with include_AB))) = {''C-protocol.h''}"
    unfolding names by (simp add: header_filename_examples)
  have extra: "set (map fst (include_dir (world_with include_AB)))
                 - set (map header_filename [doc_A, doc_C]) = {''B-protocol.h''}"
    unfolding names by (simp add: header_filename_examples)
  have "check example_scanner [doc_A, doc_C] (world_with include_AB) =
       (Inl (ValueError (Unexpected_protocol_files {''C-protocol.h''} {''B-protocol.h''})),
        world_with include_AB)"
    using check_reports_missing_and_extra
      [where ps = "[doc_A, doc_C]" and w = "world_with include_AB" and sc = example_scanner,
       THEN conjunct1, rule_format, OF differ]
    unfolding missing extra .
  moreover
  have "fst (check example_scanner [doc_A, doc_B] (world_with include_AB))
       \<noteq> Inl (ValueError (Unexpected_protocol_files {} {}))"
    using check_reports_missing_and_extra
      [where ps = "[doc_A, doc_B]" and w = "world_with include_AB" and sc = example_scanner,
       THEN conjunct2, rule_format, OF same] .
  ultimately show ?thesis
    using differ same by (intro conjI)
qed

subsection \<open>The order of the effects of \<^verbatim>\<open>check\<close>\<close>

text \<open>
  The temporary directory block with its effects: the result and the world
  are those of the block without them.
\<close>

lemma scan_in_tmp_traced:
  "\<exists>evs. with_TemporaryDirectory_traced
            (\<lambda>output_dir s1.
               case generate_protocol_header_traced sc p (TmpDir output_dir) s1 of
                 (Inl e, s2) \<Rightarrow> (Inl e, s2)
               | (Inr generated_file, s2) \<Rightarrow> readlines_traced generated_file s2) (w, tr)
          = (check_output (sc p), (w, tr @ evs))"
proof -
  define d where "d = fresh (map fst (tmp_dirs w))"
  define w1 where "w1 = w\<lparr>tmp_dirs := tmp_dirs w @ [(d, [])]\<rparr>"
  define out where "out = (TmpDir d, header_filename p)"
  have nd: "d \<notin> fst ` set (tmp_dirs w)"
    unfolding d_def using fresh_notin [of "map fst (tmp_dirs w)"] by simp
  have mk: "mkdtemp w = (d, w1)"
    by (simp add: mkdtemp_def d_def w1_def Let_def)
  have "AList.delete d (tmp_dirs w @ [(d, v)]) = AList.delete d (tmp_dirs w) @ []" for v
    by (simp add: AList.delete_eq)
  then have del: "AList.delete d (tmp_dirs w @ [(d, v)]) = tmp_dirs w" for v
    using nd by simp
  have undo: "cleanup d w1 = w"
    by (simp add: cleanup_def w1_def del)
  have get: "get_dir (TmpDir d) w1 = Some []"
    using map_of_fresh [of "tmp_dirs w"] by (simp add: w1_def d_def map_add_def)
  show ?thesis
  proof (cases "sc p")
    case (Completed ls)
    define w2 where
      "w2 = w1\<lparr>tmp_dirs := AList.update d [(header_filename p, ls)] (tmp_dirs w1)\<rparr>"
    have gen: "generate_protocol_header_traced sc p (TmpDir d) (w1, tr')
                 = (Inr out, (w2, tr' @ [Invoked_scanner p out]))" for tr'
      using Completed get
      by (simp add: generate_protocol_header_traced_def wayland_scanner_def w2_def out_def
          Let_def)
    have rd: "readlines out w2 = Inr ls"
      by (simp add: readlines_def w2_def out_def AList.update_conv')
    have "cleanup d w2 = w"
      by (simp add: cleanup_def w2_def w1_def AList.delete_update_same del)
    with Completed mk gen rd have "with_TemporaryDirectory_traced
            (\<lambda>output_dir s1.
               case generate_protocol_header_traced sc p (TmpDir output_dir) s1 of
                 (Inl e, s2) \<Rightarrow> (Inl e, s2)
               | (Inr generated_file, s2) \<Rightarrow> readlines_traced generated_file s2) (w, tr)
          = (check_output (sc p),
             (w, tr @ [Created_tmp d, Invoked_scanner p out, Opened out, Removed_tmp d]))"
      by (simp add: with_TemporaryDirectory_traced_def readlines_traced_def)
    then show ?thesis by blast
  next
    case NonZeroExit
    then have "generate_protocol_header_traced sc p (TmpDir d) (w1, tr')
                 = (Inl CalledProcessError, (w1, tr' @ [Invoked_scanner p out]))" for tr'
      by (simp add: generate_protocol_header_traced_def wayland_scanner_def out_def)
    with NonZeroExit mk undo have "with_TemporaryDirectory_traced
            (\<lambda>output_dir s1.
               case generate_protocol_header_traced sc p (TmpDir output_dir) s1 of
                 (Inl e, s2) \<Rightarrow> (Inl e, s2)
               | (Inr generated_file, s2) \<Rightarrow> readlines_traced generated_file s2) (w, tr)
          = (check_output (sc p),
             (w, tr @ [Created_tmp d, Invoked_scanner p out, Removed_tmp d]))"
      by (simp add: with_TemporaryDirectory_traced_def)
    then show ?thesis by blast
  next
    case NotStarted
    then have "generate_protocol_header_traced sc p (TmpDir d) (w1, tr')
                 = (Inl FileNotFoundError, (w1, tr' @ [Invoked_scanner p out]))" for tr'
      by (simp add: generate_protocol_header_traced_def wayland_scanner_def out_def)
    with NotStarted mk undo have "with_TemporaryDirectory_traced
            (\<lambda>output_dir s1.
               case generate_protocol_header_traced sc p (TmpDir output_dir) s1 of
                 (Inl e, s2) \<Rightarrow> (Inl e, s2)
               | (Inr generated_file, s2) \<Rightarrow> readlines_traced generated_file s2) (w, tr)
          = (check_output (sc p),
             (w, tr @ [Created_tmp d, Invoked_scanner p out, Removed_tmp d]))"
      by (simp add: with_TemporaryDirectory_traced_def)
    then show ?thesis by blast
  next
    case NotExecutable
    then have "generate_protocol_header_traced sc p (TmpDir d) (w1, tr')
                 = (Inl PermissionError, (w1, tr' @ [Invoked_scanner p out]))" for tr'
      by (simp add: generate_protocol_header_traced_def wayland_scanner_def out_def)
    with NotExecutable mk undo have "with_TemporaryDirectory_traced
            (\<lambda>output_dir s1.
               case generate_protocol_header_traced sc p (TmpDir output_dir) s1 of
                 (Inl e, s2) \<Rightarrow> (Inl e, s2)
               | (Inr generated_file, s2) \<Rightarrow> readlines_traced generated_file s2) (w, tr)
          = (check_output (sc p),
             (w, tr @ [Created_tmp d, Invoked_scanner p out, Removed_tmp d]))"
      by (simp add: with_TemporaryDirectory_traced_def)
    then show ?thesis by blast
  qed
qed

text \<open>
  The check of one document with its effects: result and world are those of
  \<open>check_protocol\<close>, and the first new effect is the opening of the header
  checked in.
\<close>

lemma check_protocol_traced_eq:
  "\<exists>evs. check_protocol_traced sc p (w, tr) =
           (fst (check_protocol sc p w),
            (snd (check_protocol sc p w),
             tr @ Opened (INCLUDE_PATH, header_filename p) # evs))"
proof (cases "map_of (include_dir w) (header_filename p)")
  case None
  then have "check_protocol_traced sc p (w, tr) =
           (fst (check_protocol sc p w),
            (snd (check_protocol sc p w),
             tr @ Opened (INCLUDE_PATH, header_filename p) # []))"
    by (simp add: check_protocol_traced_def readlines_traced_def readlines_def
        check_protocol_eq)
  then show ?thesis by blast
next
  case (Some h)
  from scan_in_tmp_traced [of sc p w "tr @ [Opened (INCLUDE_PATH, header_filename p)]"]
  obtain evs where blk: "with_TemporaryDirectory_traced
            (\<lambda>output_dir s1.
               case generate_protocol_header_traced sc p (TmpDir output_dir) s1 of
                 (Inl e, s2) \<Rightarrow> (Inl e, s2)
               | (Inr generated_file, s2) \<Rightarrow> readlines_traced generated_file s2)
            (w, tr @ [Opened (INCLUDE_PATH, header_filename p)])
          = (check_output (sc p), (w, (tr @ [Opened (INCLUDE_PATH, header_filename p)]) @ evs))"
    by blast
  have "check_protocol_traced sc p (w, tr) =
           (fst (check_protocol sc p w),
            (snd (check_protocol sc p w),
             tr @ Opened (INCLUDE_PATH, header_filename p) # evs))"
    using Some
    by (simp add: check_protocol_traced_def readlines_traced_def readlines_def blk
        check_protocol_eq print2_def split: sum.splits option.splits)
  then show ?thesis by blast
qed

lemma check_loop_traced_eq:
  "\<exists>evs. check_loop_traced sc ps (w, tr) =
           (fst (check_loop sc ps w), (snd (check_loop sc ps w), tr @ evs))
         \<and> (case ps of
              [] \<Rightarrow> evs = []
            | p # _ \<Rightarrow> \<exists>evs'. evs = Opened (INCLUDE_PATH, header_filename p) # evs')"
proof (induction ps arbitrary: w tr)
  case Nil
  show ?case by simp
next
  case (Cons p ps)
  obtain r w1 where cp: "check_protocol sc p w = (r, w1)"
    by (cases "check_protocol sc p w")
  from check_protocol_traced_eq [of sc p w tr] cp obtain evs where step:
    "check_protocol_traced sc p (w, tr) =
       (r, (w1, tr @ Opened (INCLUDE_PATH, header_filename p) # evs))"
    by auto
  show ?case
  proof (cases r)
    case (Inl e)
    with step cp have "check_loop_traced sc (p # ps) (w, tr) =
           (fst (check_loop sc (p # ps) w),
            (snd (check_loop sc (p # ps) w),
             tr @ (Opened (INCLUDE_PATH, header_filename p) # evs)))"
      by simp
    then show ?thesis by auto
  next
    case (Inr u)
    from Cons.IH [of w1 "tr @ Opened (INCLUDE_PATH, header_filename p) # evs"]
    obtain evs2 where rest:
      "check_loop_traced sc ps (w1, tr @ Opened (INCLUDE_PATH, header_filename p) # evs) =
       (fst (check_loop sc ps w1),
        (snd (check_loop sc ps w1),
         (tr @ Opened (INCLUDE_PATH, header_filename p) # evs) @ evs2))"
      by blast
    with step cp Inr have "check_loop_traced sc (p # ps) (w, tr) =
           (fst (check_loop sc (p # ps) w),
            (snd (check_loop sc (p # ps) w),
             tr @ (Opened (INCLUDE_PATH, header_filename p) # evs @ evs2)))"
      by simp
    then show ?thesis by auto
  qed
qed

text \<open>
  Claim C10. The one effect of \<^verbatim>\<open>check\<close> that comes before the comparison of
  the two sets of names is the listing of the include directory. When the
  sets differ, \<^verbatim>\<open>check\<close> fails with the set mismatch error with that listing
  as its only effect: the generator has not been invoked, no temporary
  directory has been created and no header has been opened, and the world is
  the one \<^verbatim>\<open>check\<close> started in. When the sets are equal, the loop over the
  documents runs, and with a document in the list the next effect is the
  opening of the header checked in for the first one. Without the list of
  effects the result and the world are those of \<open>check\<close>.
\<close>

theorem check_set_mismatch_comes_first:
  "(fst (check_traced sc ps (w, tr)), fst (snd (check_traced sc ps (w, tr)))) = check sc ps w
   \<and> (set (map header_filename ps) \<noteq> set (map fst (include_dir w)) \<longrightarrow>
        check_traced sc ps (w, tr) =
          (Inl (ValueError (Unexpected_protocol_files
                 (set (map header_filename ps) - set (map fst (include_dir w)))
                 (set (map fst (include_dir w)) - set (map header_filename ps)))),
           (w, tr @ [Listed INCLUDE_PATH])))
   \<and> (set (map header_filename ps) = set (map fst (include_dir w)) \<longrightarrow>
        (\<exists>evs. check_traced sc ps (w, tr) =
                 (fst (check_loop sc ps w),
                  (snd (check_loop sc ps w), tr @ Listed INCLUDE_PATH # evs))
               \<and> (case ps of
                    [] \<Rightarrow> evs = []
                  | p # _ \<Rightarrow> \<exists>evs'. evs = Opened (INCLUDE_PATH, header_filename p) # evs')))"
proof -
  from check_loop_traced_eq [of sc ps w "tr @ [Listed INCLUDE_PATH]"]
  obtain evs where loop:
    "check_loop_traced sc ps (w, tr @ [Listed INCLUDE_PATH]) =
       (fst (check_loop sc ps w), (snd (check_loop sc ps w), tr @ Listed INCLUDE_PATH # evs))"
    "case ps of
       [] \<Rightarrow> evs = []
     | p # _ \<Rightarrow> \<exists>evs'. evs = Opened (INCLUDE_PATH, header_filename p) # evs'"
    by auto
  have erase: "(fst (check_traced sc ps (w, tr)), fst (snd (check_traced sc ps (w, tr))))
                 = check sc ps w"
    using loop(1) by (simp add: check_traced_def check_def Let_def)
  have differ: "check_traced sc ps (w, tr) =
          (Inl (ValueError (Unexpected_protocol_files
                 (set (map header_filename ps) - set (map fst (include_dir w)))
                 (set (map fst (include_dir w)) - set (map header_filename ps)))),
           (w, tr @ [Listed INCLUDE_PATH]))"
    if "set (map header_filename ps) \<noteq> set (map fst (include_dir w))"
    using that by (simp add: check_traced_def Let_def)
  have same: "\<exists>evs. check_traced sc ps (w, tr) =
                 (fst (check_loop sc ps w),
                  (snd (check_loop sc ps w), tr @ Listed INCLUDE_PATH # evs))
               \<and> (case ps of
                    [] \<Rightarrow> evs = []
                  | p # _ \<Rightarrow> \<exists>evs'. evs = Opened (INCLUDE_PATH, header_filename p) # evs')"
    if "set (map header_filename ps) = set (map fst (include_dir w))"
  proof -
    from that loop(1) have "check_traced sc ps (w, tr) =
                 (fst (check_loop sc ps w),
                  (snd (check_loop sc ps w), tr @ Listed INCLUDE_PATH # evs))"
      by (simp add: check_traced_def Let_def)
    with loop(2) show ?thesis by blast
  qed
  from erase differ same show ?thesis by blast
qed

text \<open>
  On the examples. With the headers of \<open>A\<close> and \<open>B\<close> checked in and the
  documents \<open>A\<close> and \<open>C\<close>, the listing is the only effect. With the documents
  \<open>A\<close> and \<open>B\<close>, the listing is followed by the opening of the header of
  \<open>A\<close>; the last line is the whole run, computed from the definitions.
\<close>

theorem check_set_mismatch_comes_first_witness:
  "check_traced example_scanner [doc_A, doc_C] (world_with include_AB, []) =
     (Inl (ValueError (Unexpected_protocol_files {''C-protocol.h''} {''B-protocol.h''})),
      (world_with include_AB, [Listed INCLUDE_PATH]))
   \<and> (\<exists>evs. check_traced example_scanner [doc_A, doc_B] (world_with include_AB, []) =
               (Inr (), (world_with include_AB,
                  Listed INCLUDE_PATH # Opened (INCLUDE_PATH, ''A-protocol.h'') # evs)))
   \<and> check_traced example_scanner [doc_A, doc_B] (world_with include_AB, []) =
       (Inr (), (world_with include_AB,
          [Listed INCLUDE_PATH,
           Opened (INCLUDE_PATH, ''A-protocol.h''),
           Created_tmp 8,
           Invoked_scanner doc_A (TmpDir 8, ''A-protocol.h''),
           Opened (TmpDir 8, ''A-protocol.h''),
           Removed_tmp 8,
           Opened (INCLUDE_PATH, ''B-protocol.h''),
           Created_tmp 8,
           Invoked_scanner doc_B (TmpDir 8, ''B-protocol.h''),
           Opened (TmpDir 8, ''B-protocol.h''),
           Removed_tmp 8]))"
proof -
  have names: "set (map fst (include_dir (world_with include_AB)))
                 = {''A-protocol.h'', ''B-protocol.h''}"
    by (simp add: world_with_def include_AB_def)
  have differ: "set (map header_filename [doc_A, doc_C])
                  \<noteq> set (map fst (include_dir (world_with include_AB)))"
    unfolding names by (simp add: header_filename_examples doubleton_eq_iff)
  have same: "set (map header_filename [doc_A, doc_B])
                = set (map fst (include_dir (world_with include_AB)))"
    unfolding names by (simp add: header_filename_examples)
  have missing: "set (map header_filename [doc_A, doc_C])
                   - set (map fst (include_dir (world_with include_AB))) = {''C-protocol.h''}"
    unfolding names by (simp add: header_filename_examples)
  have extra: "set (map fst (include_dir (world_with include_AB)))
                 - set (map header_filename [doc_A, doc_C]) = {''B-protocol.h''}"
    unfolding names by (simp add: header_filename_examples)
  have pass: "check_loop example_scanner [doc_A, doc_B] (world_with include_AB)
                = (Inr (), world_with include_AB)"
    by (simp add: check_protocol_eq header_filename_examples doc_distinct world_with_def
        include_AB_def example_scanner_def lines_A_def lines_B_def)
  have 1: "check_traced example_scanner [doc_A, doc_C] (world_with include_AB, []) =
     (Inl (ValueError (Unexpected_protocol_files {''C-protocol.h''} {''B-protocol.h''})),
      (world_with include_AB, [Listed INCLUDE_PATH]))"
    using check_set_mismatch_comes_first
      [where ps = "[doc_A, doc_C]" and w = "world_with include_AB" and sc = example_scanner
         and tr = "[]",
       THEN conjunct2, THEN conjunct1, rule_format, OF differ]
    unfolding missing extra by simp
  have 2: "\<exists>evs. check_traced example_scanner [doc_A, doc_B] (world_with include_AB, []) =
               (Inr (), (world_with include_AB,
                  Listed INCLUDE_PATH # Opened (INCLUDE_PATH, ''A-protocol.h'') # evs))"
    using check_set_mismatch_comes_first
      [where ps = "[doc_A, doc_B]" and w = "world_with include_AB" and sc = example_scanner
         and tr = "[]",
       THEN conjunct2, THEN conjunct2, rule_format, OF same]
    unfolding pass by (auto simp: header_filename_examples)
  have 3: "check_traced example_scanner [doc_A, doc_B] (world_with include_AB, []) =
       (Inr (), (world_with include_AB,
          [Listed INCLUDE_PATH,
           Opened (INCLUDE_PATH, ''A-protocol.h''),
           Created_tmp 8,
           Invoked_scanner doc_A (TmpDir 8, ''A-protocol.h''),
           Opened (TmpDir 8, ''A-protocol.h''),
           Removed_tmp 8,
           Opened (INCLUDE_PATH, ''B-protocol.h''),
           Created_tmp 8,
           Invoked_scanner doc_B (TmpDir 8, ''B-protocol.h''),
           Opened (TmpDir 8, ''B-protocol.h''),
           Removed_tmp 8]))"
    by (simp add: check_traced_def check_protocol_traced_def readlines_traced_def
        with_TemporaryDirectory_traced_def generate_protocol_header_traced_def
        wayland_scanner_def readlines_def mkdtemp_def cleanup_def fresh_def
        header_filename_examples doc_distinct world_with_def include_AB_def
        example_scanner_def lines_A_def lines_B_def Let_def)
  from 1 2 3 show ?thesis by (intro conjI)
qed

subsection \<open>A successful check changes nothing\<close>

text \<open>
  Claim C4. When \<^verbatim>\<open>check\<close> succeeds, the world it leaves is the world it
  started in: the include directory and every header in it are as they were,
  the temporary directories used on the way are gone and nothing has been
  printed. So a second run right after meets the same inputs and succeeds the
  same way.
\<close>

theorem check_success_changes_nothing:
  assumes "check sc ps w = (Inr u, w')"
  shows "w' = w \<and> include_dir w' = include_dir w \<and> tmp_dirs w' = tmp_dirs w
         \<and> check sc ps w' = (Inr u, w')"
proof -
  from assms have "check_loop sc ps w = (Inr u, w')"
    by (simp add: check_def Let_def split: if_splits)
  then have "w' = w" by (rule check_loop_success)
  with assms show ?thesis by simp
qed

theorem check_success_changes_nothing_witness:
  "check example_scanner [doc_A, doc_B] (world_with include_AB)
     = (Inr (), world_with include_AB)
   \<and> include_dir (world_with include_AB) = include_AB
   \<and> check example_scanner [doc_A, doc_B]
        (snd (check example_scanner [doc_A, doc_B] (world_with include_AB)))
     = (Inr (), world_with include_AB)"
proof -
  have "fst (check example_scanner [doc_A, doc_B] (world_with include_AB)) = Inr ()"
    by (simp add: check_def check_protocol_eq header_filename_examples name_examples
        doc_distinct world_with_def include_AB_def example_scanner_def
        lines_A_def lines_B_def)
  then have run: "check example_scanner [doc_A, doc_B] (world_with include_AB)
                    = (Inr (), snd (check example_scanner [doc_A, doc_B] (world_with include_AB)))"
    by (simp add: prod_eq_iff)
  from check_success_changes_nothing [OF run] run show ?thesis
    by (simp add: world_with_def)
qed

subsection \<open>What a failed comparison reports\<close>

text \<open>
  Claim C5. When the documents before \<open>d\<close> pass and the header checked in for
  \<open>d\<close> has another number of lines than the header generated for it,
  \<^verbatim>\<open>check\<close> fails with the line count error, which carries the name of the
  document and nothing else; nothing is printed.
\<close>

theorem check_reports_line_count:
  assumes "set (map header_filename (ps @ d # qs)) = set (map fst (include_dir w))"
      and "\<forall>p\<in>set ps. fst (check_protocol sc p w) = Inr ()"
      and "map_of (include_dir w) (header_filename d) = Some h"
      and "sc d = Completed g"
      and "length h \<noteq> length g"
  shows "check sc (ps @ d # qs) w = (Inl (ValueError (Mismatch_line_count (name d))), w)"
proof -
  have "check_loop sc ps w = (Inr (), w)"
    using assms(2) by (intro check_loop_pass) simp
  moreover have "check_protocol sc d w = (Inl (ValueError (Mismatch_line_count (name d))), w)"
    using assms(3-5) by (simp add: check_protocol_eq)
  ultimately have "check_loop sc (ps @ d # qs) w
                     = (Inl (ValueError (Mismatch_line_count (name d))), w)"
    by (simp add: check_loop_append)
  with assms(1) show ?thesis
    by (simp add: check_def Let_def)
qed

text \<open>
  The scenario of the specification: the header checked in for \<open>A\<close> has ten
  lines and the generator now writes eleven.
\<close>

theorem check_reports_line_count_witness:
  "set (map header_filename ([] @ doc_A # [])) = set (map fst (include_dir (world_with include_A_ten)))
   \<and> length (replicate 10 ''/* generated */\<newline>'') = 10
   \<and> length (replicate 11 ''/* generated */\<newline>'') = 11
   \<and> map_of (include_dir (world_with include_A_ten)) (header_filename doc_A)
        = Some (replicate 10 ''/* generated */\<newline>'')
   \<and> eleven_scanner doc_A = Completed (replicate 11 ''/* generated */\<newline>'')
   \<and> check eleven_scanner [doc_A] (world_with include_A_ten)
        = (Inl (ValueError (Mismatch_line_count ''A.xml'')), world_with include_A_ten)"
proof -
  have 1: "set (map header_filename ([] @ doc_A # []))
             = set (map fst (include_dir (world_with include_A_ten)))"
    by (simp add: header_filename_examples world_with_def include_A_ten_def)
  have 2: "\<forall>p\<in>set []. fst (check_protocol eleven_scanner p (world_with include_A_ten)) = Inr ()"
    by simp
  have 3: "map_of (include_dir (world_with include_A_ten)) (header_filename doc_A)
             = Some (replicate 10 ''/* generated */\<newline>'')"
    by (simp add: header_filename_examples world_with_def include_A_ten_def)
  have 4: "eleven_scanner doc_A = Completed (replicate 11 ''/* generated */\<newline>'')"
    by (simp add: eleven_scanner_def)
  have 5: "length (replicate 10 ''/* generated */\<newline>'')
             \<noteq> length (replicate 11 ''/* generated */\<newline>'')"
    by simp
  from check_reports_line_count [OF 1 2 3 4 5]
  have "check eleven_scanner [doc_A] (world_with include_A_ten)
        = (Inl (ValueError (Mismatch_line_count ''A.xml'')), world_with include_A_ten)"
    by (simp add: name_examples)
  with 1 3 4 show ?thesis by simp
qed

text \<open>
  Claim C1. When the documents before \<open>d\<close> pass and the header checked in for
  \<open>d\<close> has as many lines as the header generated for it but is not the same,
  \<^verbatim>\<open>check\<close> fails with the error that carries the name of \<open>d\<close> and the index
  \<open>k\<close>, counted from zero, of the first line at which the two differ: the
  lines at \<open>k\<close> differ and all lines before \<open>k\<close> agree. The generated line
  and the checked-in line at \<open>k\<close> are printed, and the documents after \<open>d\<close>
  are not looked at.
\<close>

theorem check_reports_first_differing_line:
  assumes "set (map header_filename (ps @ d # qs)) = set (map fst (include_dir w))"
      and "\<forall>p\<in>set ps. fst (check_protocol sc p w) = Inr ()"
      and "map_of (include_dir w) (header_filename d) = Some h"
      and "sc d = Completed g"
      and "length h = length g"
      and "h \<noteq> g"
  shows "\<exists>k<length g.
           g ! k \<noteq> h ! k \<and> (\<forall>j<k. g ! j = h ! j)
           \<and> check sc (ps @ d # qs) w =
               (Inl (ValueError (Mismatch_in_line (name d) k)),
                w\<lparr>stdout := stdout w @
                     [''Expected: '' @ strip_with (\<lambda>c. c = CHR 0x0A) (g ! k),
                      ''Got: '' @ strip_with (\<lambda>c. c = CHR 0x0A) (h ! k)]\<rparr>)"
proof -
  from assms(5,6) have "length g = length h" "g \<noteq> h" by auto
  from first_mismatch_Some [OF this, of 0] obtain k where k:
    "k < length g" "g ! k \<noteq> h ! k" "\<forall>j<k. g ! j = h ! j"
    "first_mismatch 0 g h = Some (k, g ! k, h ! k)"
    by auto
  have "check_loop sc ps w = (Inr (), w)"
    using assms(2) by (intro check_loop_pass) simp
  moreover
  have "check_protocol sc d w =
          (Inl (ValueError (Mismatch_in_line (name d) k)),
           w\<lparr>stdout := stdout w @
                [''Expected: '' @ strip_with (\<lambda>c. c = CHR 0x0A) (g ! k),
                 ''Got: '' @ strip_with (\<lambda>c. c = CHR 0x0A) (h ! k)]\<rparr>)"
    using assms(3-5) k(4) by (simp add: check_protocol_eq)
  ultimately
  have "check_loop sc (ps @ d # qs) w =
          (Inl (ValueError (Mismatch_in_line (name d) k)),
           w\<lparr>stdout := stdout w @
                [''Expected: '' @ strip_with (\<lambda>c. c = CHR 0x0A) (g ! k),
                 ''Got: '' @ strip_with (\<lambda>c. c = CHR 0x0A) (h ! k)]\<rparr>)"
    by (simp add: check_loop_append)
  with assms(1) have "check sc (ps @ d # qs) w =
          (Inl (ValueError (Mismatch_in_line (name d) k)),
           w\<lparr>stdout := stdout w @
                [''Expected: '' @ strip_with (\<lambda>c. c = CHR 0x0A) (g ! k),
                 ''Got: '' @ strip_with (\<lambda>c. c = CHR 0x0A) (h ! k)]\<rparr>)"
    by (simp add: check_def Let_def)
  with k(1-3) show ?thesis by blast
qed

text \<open>
  On the examples: \<open>A\<close> passes, the second line of the header of \<open>B\<close> has
  been edited, and the empty header of \<open>C\<close> is not reached.
\<close>

theorem check_reports_first_differing_line_witness:
  "set (map header_filename ([doc_A] @ doc_B # [doc_C]))
     = set (map fst (include_dir (world_with (include_AB_edited @ [(''C-protocol.h'', [])]))))
   \<and> fst (check_protocol example_scanner doc_A
              (world_with (include_AB_edited @ [(''C-protocol.h'', [])]))) = Inr ()
   \<and> map_of (include_dir (world_with (include_AB_edited @ [(''C-protocol.h'', [])])))
        (header_filename doc_B)
       = Some [''struct b;\<newline>'', ''int b_init(void);\<newline>'', ''void b_done(void);\<newline>'']
   \<and> example_scanner doc_B = Completed lines_B
   \<and> check example_scanner [doc_A, doc_B, doc_C]
        (world_with (include_AB_edited @ [(''C-protocol.h'', [])]))
       = (Inl (ValueError (Mismatch_in_line ''B.xml'' 1)),
          (world_with (include_AB_edited @ [(''C-protocol.h'', [])]))
            \<lparr>stdout := [''Expected: void b_init(void);'', ''Got: int b_init(void);'']\<rparr>)"
proof -
  define w where "w = world_with (include_AB_edited @ [(''C-protocol.h'', [])])"
  define h where
    "h = [''struct b;\<newline>'', ''int b_init(void);\<newline>'', ''void b_done(void);\<newline>'']"
  have 1: "set (map header_filename ([doc_A] @ doc_B # [doc_C]))
             = set (map fst (include_dir w))"
    by (simp add: w_def header_filename_examples world_with_def include_AB_edited_def)
  have 2: "\<forall>p\<in>set [doc_A]. fst (check_protocol example_scanner p w) = Inr ()"
    by (simp add: w_def check_protocol_eq header_filename_examples world_with_def
        include_AB_edited_def example_scanner_def lines_A_def)
  have 3: "map_of (include_dir w) (header_filename doc_B) = Some h"
    by (simp add: w_def h_def header_filename_examples world_with_def include_AB_edited_def)
  have 4: "example_scanner doc_B = Completed lines_B"
    by (simp add: example_scanner_def doc_distinct)
  have 5: "length h = length lines_B"
    by (simp add: h_def lines_B_def)
  have 6: "h \<noteq> lines_B"
    by (simp add: h_def lines_B_def)
  from check_reports_first_differing_line [OF 1 2 3 4 5 6] obtain k where k:
    "k < length lines_B" "lines_B ! k \<noteq> h ! k" 
    "check example_scanner ([doc_A] @ doc_B # [doc_C]) w =
       (Inl (ValueError (Mismatch_in_line (name doc_B) k)),
        w\<lparr>stdout := stdout w @
             [''Expected: '' @ strip_with (\<lambda>c. c = CHR 0x0A) (lines_B ! k),
              ''Got: '' @ strip_with (\<lambda>c. c = CHR 0x0A) (h ! k)]\<rparr>)"
    by blast
  from k(1) have "k = 0 \<or> k = 1 \<or> k = 2"
    by (auto simp: lines_B_def)
  with k(2) have "k = 1"
    by (auto simp: lines_B_def h_def)
  with k(3) have "check example_scanner [doc_A, doc_B, doc_C] w =
       (Inl (ValueError (Mismatch_in_line ''B.xml'' 1)),
        w\<lparr>stdout := [''Expected: void b_init(void);'', ''Got: int b_init(void);'']\<rparr>)"
    by (simp add: name_examples lines_B_def h_def strip_with_def w_def world_with_def)
  with 1 2 3 4 show ?thesis
    unfolding w_def h_def by simp
qed

subsection \<open>Regenerating and then checking\<close>

lemma generate_protocol_header_include:
  "sc p = Completed ls \<Longrightarrow>
   generate_protocol_header sc p INCLUDE_PATH w =
     (Inr (INCLUDE_PATH, header_filename p),
      w\<lparr>include_dir := AList.update (header_filename p) ls (include_dir w)\<rparr>)"
  by (simp add: generate_protocol_header_def wayland_scanner_def)

text \<open>
  When the generator succeeds on every document, \<^verbatim>\<open>generate\<close> succeeds; it
  adds the header names of the documents to the include directory and removes
  none, and a name for which all documents write the same lines holds these
  lines afterwards.
\<close>

lemma generate_succeeds:
  "\<forall>p\<in>set D. \<exists>ls. sc p = Completed ls \<Longrightarrow> fst (generate sc D w) = Inr ()"
proof (induction D arbitrary: w)
  case Nil
  show ?case by simp
next
  case (Cons p D)
  from Cons.prems obtain lp where lp: "sc p = Completed lp" by auto
  from Cons.prems have rest: "\<forall>q\<in>set D. \<exists>ls. sc q = Completed ls" by simp
  show ?case
    using Cons.IH [OF rest] by (simp add: generate_protocol_header_include [of sc p lp, OF lp])
qed

lemma generate_names:
  "\<forall>p\<in>set D. \<exists>ls. sc p = Completed ls \<Longrightarrow>
   fst ` set (include_dir (snd (generate sc D w)))
     = fst ` set (include_dir w) \<union> header_filename ` set D"
proof (induction D arbitrary: w)
  case Nil
  show ?case by simp
next
  case (Cons p D)
  from Cons.prems obtain lp where lp: "sc p = Completed lp" by auto
  from Cons.prems have rest: "\<forall>q\<in>set D. \<exists>ls. sc q = Completed ls" by simp
  show ?case
    by (simp add: generate_protocol_header_include [of sc p lp, OF lp] Cons.IH [OF rest] AList.dom_update)
qed

lemma generate_content:
  "\<forall>p\<in>set D. \<exists>ls. sc p = Completed ls \<Longrightarrow>
   \<forall>p\<in>set D. header_filename p = n \<longrightarrow> sc p = Completed ls \<Longrightarrow>
   n \<in> header_filename ` set D \<or> map_of (include_dir w) n = Some ls \<Longrightarrow>
   map_of (include_dir (snd (generate sc D w))) n = Some ls"
proof (induction D arbitrary: w)
  case Nil
  then show ?case by simp
next
  case (Cons p D)
  from Cons.prems(1) obtain lp where lp: "sc p = Completed lp" by auto
  from Cons.prems(1) have rest: "\<forall>q\<in>set D. \<exists>ls. sc q = Completed ls" by simp
  from Cons.prems(2) have same: "\<forall>q\<in>set D. header_filename q = n \<longrightarrow> sc q = Completed ls"
    by simp
  define w1 where "w1 = w\<lparr>include_dir := AList.update (header_filename p) lp (include_dir w)\<rparr>"
  have there: "n \<in> header_filename ` set D \<or> map_of (include_dir w1) n = Some ls"
  proof (cases "n = header_filename p")
    case True
    with Cons.prems(2) lp have "lp = ls" by simp
    with True show ?thesis by (simp add: w1_def AList.update_conv')
  next
    case False
    with Cons.prems(3) show ?thesis by (auto simp: w1_def AList.update_conv')
  qed
  have "map_of (include_dir (snd (generate sc D w1))) n = Some ls"
    using rest same there by (rule Cons.IH)
  then show ?case
    by (simp add: generate_protocol_header_include [of sc p lp, OF lp] w1_def)
qed

lemma first_mismatch_same: "first_mismatch i ls ls = None"
  by (induction ls arbitrary: i) simp_all

lemma check_protocol_agree:
  "map_of (include_dir w) (header_filename p) = Some ls \<Longrightarrow> sc p = Completed ls \<Longrightarrow>
   check_protocol sc p w = (Inr (), w)"
  by (simp add: check_protocol_eq first_mismatch_same)

text \<open>
  Claim C3 as stated fails on two inputs, each with a generator that succeeds
  on every document. With the header of \<open>B\<close> left in the include directory
  from an earlier configuration and the one document \<open>A\<close>, \<^verbatim>\<open>generate\<close>
  succeeds and \<^verbatim>\<open>check\<close> then reports the header of \<open>B\<close> as an extra file.
  With an empty include directory and two documents of stem \<open>A\<close> for which
  different lines are generated, \<^verbatim>\<open>generate\<close> succeeds, the second header
  overwrites the first, and \<^verbatim>\<open>check\<close> then reports a mismatch for the first
  document.
\<close>

theorem generate_then_check_counterexample:
  "total_scanner doc_A = Completed lines_A
   \<and> total_scanner doc_A' = Completed lines_A'
   \<and> fst (generate total_scanner [doc_A] (world_with include_AB)) = Inr ()
   \<and> fst (check total_scanner [doc_A]
             (snd (generate total_scanner [doc_A] (world_with include_AB))))
       = Inl (ValueError (Unexpected_protocol_files {} {''B-protocol.h''}))
   \<and> fst (generate total_scanner [doc_A, doc_A'] (world_with [])) = Inr ()
   \<and> fst (check total_scanner [doc_A, doc_A']
             (snd (generate total_scanner [doc_A, doc_A'] (world_with []))))
       = Inl (ValueError (Mismatch_in_line ''A.xml'' 1))"
proof -
  have A: "total_scanner doc_A = Completed lines_A"
    by (simp add: total_scanner_def doc_distinct [symmetric])
  have A': "total_scanner doc_A' = Completed lines_A'"
    by (simp add: total_scanner_def)
  have g1: "generate total_scanner [doc_A] (world_with include_AB)
              = (Inr (), world_with include_AB)"
    by (simp add: generate_protocol_header_include [of total_scanner doc_A lines_A, OF A]
        header_filename_examples world_with_def include_AB_def)
  have c1: "fst (check total_scanner [doc_A] (world_with include_AB))
              = Inl (ValueError (Unexpected_protocol_files {} {''B-protocol.h''}))"
  proof -
    have "set (map fst (include_dir (world_with include_AB)))
            - set (map header_filename [doc_A]) = {''B-protocol.h''}"
      by (simp add: header_filename_examples world_with_def include_AB_def)
    moreover have "set (map header_filename [doc_A])
            - set (map fst (include_dir (world_with include_AB))) = {}"
      by (simp add: header_filename_examples world_with_def include_AB_def)
    moreover have "set (map header_filename [doc_A])
            \<noteq> set (map fst (include_dir (world_with include_AB)))"
      by (simp add: header_filename_examples world_with_def include_AB_def doubleton_eq_iff)
    ultimately show ?thesis
      by (simp add: check_def Let_def)
  qed
  have g2: "generate total_scanner [doc_A, doc_A'] (world_with [])
              = (Inr (), world_with [(''A-protocol.h'', lines_A')])"
    by (simp add: generate_protocol_header_include [of total_scanner doc_A lines_A, OF A]
        generate_protocol_header_include [of total_scanner doc_A' lines_A', OF A']
        header_filename_examples world_with_def)
  have c2: "fst (check total_scanner [doc_A, doc_A'] (world_with [(''A-protocol.h'', lines_A')]))
              = Inl (ValueError (Mismatch_in_line ''A.xml'' 1))"
    by (simp add: check_def check_protocol_eq header_filename_examples name_examples A
        world_with_def lines_A_def lines_A'_def)
  from A A' g1 c1 g2 c2 show ?thesis by simp
qed

text \<open>
  Claim C3, amended. \<^verbatim>\<open>generate\<close> removes nothing from the include
  directory, and two documents with one stem share one header. So: when the
  generator succeeds on every document of the list, every file in the include
  directory at the start bears the header name of a document of the list, and
  documents of the list with the same header name get the same lines
  generated, then \<^verbatim>\<open>generate\<close> succeeds and \<^verbatim>\<open>check\<close>, run on the world
  \<^verbatim>\<open>generate\<close> leaves, succeeds.
\<close>

theorem generate_then_check_succeeds:
  assumes "\<forall>p\<in>set D. \<exists>ls. sc p = Completed ls"
      and "set (map fst (include_dir w)) \<subseteq> set (map header_filename D)"
      and "\<forall>p\<in>set D. \<forall>q\<in>set D. header_filename p = header_filename q \<longrightarrow> sc p = sc q"
  shows "\<exists>w'. generate sc D w = (Inr (), w') \<and> check sc D w' = (Inr (), w')"
proof -
  define w' where "w' = snd (generate sc D w)"
  have run: "generate sc D w = (Inr (), w')"
    using generate_succeeds [OF assms(1), of w] by (simp add: w'_def prod_eq_iff)
  have "fst ` set (include_dir w') = fst ` set (include_dir w) \<union> header_filename ` set D"
    unfolding w'_def using assms(1) by (rule generate_names)
  with assms(2) have names: "set (map header_filename D) = set (map fst (include_dir w'))"
    by auto
  have pass: "fst (check_protocol sc p w') = Inr ()" if p: "p \<in> set D" for p
  proof -
    from assms(1) p obtain ls where ls: "sc p = Completed ls" by auto
    have "sc q = Completed ls" if "q \<in> set D" "header_filename q = header_filename p" for q
      using assms(3) p ls that by fastforce
    then have "\<forall>q\<in>set D. header_filename q = header_filename p \<longrightarrow> sc q = Completed ls"
      by simp
    moreover have "header_filename p \<in> header_filename ` set D"
      using p by simp
    ultimately have "map_of (include_dir w') (header_filename p) = Some ls"
      unfolding w'_def using assms(1) by (intro generate_content) simp_all
    with ls show ?thesis by (simp add: check_protocol_agree)
  qed
  have "check_loop sc D w' = (Inr (), w')"
    by (rule check_loop_pass) (rule pass)
  with names have "check sc D w' = (Inr (), w')"
    by (simp add: check_def Let_def)
  with run show ?thesis by blast
qed

text \<open>
  On the examples: the include directory holds a stale header of \<open>A\<close> and the
  documents are \<open>A\<close> and \<open>C\<close>.
\<close>

theorem generate_then_check_succeeds_witness:
  "fst (generate example_scanner [doc_A, doc_C] (world_with [(''A-protocol.h'', [''stale\<newline>''])]))
     = Inr ()
   \<and> fst (check example_scanner [doc_A, doc_C]
            (snd (generate example_scanner [doc_A, doc_C]
                    (world_with [(''A-protocol.h'', [''stale\<newline>''])])))) = Inr ()"
proof -
  have 1: "\<forall>p\<in>set [doc_A, doc_C]. \<exists>ls. example_scanner p = Completed ls"
    by (simp add: example_scanner_def)
  have 2: "set (map fst (include_dir (world_with [(''A-protocol.h'', [''stale\<newline>''])])))
             \<subseteq> set (map header_filename [doc_A, doc_C])"
    by (simp add: header_filename_examples world_with_def)
  have 3: "\<forall>p\<in>set [doc_A, doc_C]. \<forall>q\<in>set [doc_A, doc_C].
             header_filename p = header_filename q \<longrightarrow> example_scanner p = example_scanner q"
    by (simp add: header_filename_examples)
  from generate_then_check_succeeds [OF 1 2 3] show ?thesis
    by auto
qed

subsection \<open>Resolving the protocol documents\<close>

lemma Path_WAYLAND_PROCOTOLS:
  "map Path WAYLAND_PROCOTOLS =
     [[''stable'', ''xdg-shell'', ''xdg-shell.xml''],
      [''unstable'', ''idle-inhibit'', ''idle-inhibit-unstable-v1.xml''],
      [''unstable'', ''pointer-constraints'', ''pointer-constraints-unstable-v1.xml'']]"
  by code_simp

lemma Path_WLROOTS_PROTOCOLS:
  "map Path WLROOTS_PROTOCOLS =
     [[''protocol'', ''idle.xml''],
      [''protocol'', ''wlr-output-power-management-unstable-v1.xml''],
      [''protocol'', ''wlr-layer-shell-unstable-v1.xml'']]"
  by code_simp

lemma root_of_protocols:
  "map root_of WAYLAND_PROCOTOLS = [[], [], []]"
  "map root_of WLROOTS_PROTOCOLS = [[], [], []]"
  by code_simp+

text \<open>The configured relative paths are relative, so joining appends their parts.\<close>

lemma joinpath_WAYLAND_PROCOTOLS:
  "map (joinpath base) WAYLAND_PROCOTOLS =
     [base @ [''stable'', ''xdg-shell'', ''xdg-shell.xml''],
      base @ [''unstable'', ''idle-inhibit'', ''idle-inhibit-unstable-v1.xml''],
      base @ [''unstable'', ''pointer-constraints'', ''pointer-constraints-unstable-v1.xml'']]"
  using Path_WAYLAND_PROCOTOLS root_of_protocols(1)
  by (simp add: WAYLAND_PROCOTOLS_def joinpath_def)

lemma joinpath_WLROOTS_PROTOCOLS:
  "map (joinpath base) WLROOTS_PROTOCOLS =
     [base @ [''protocol'', ''idle.xml''],
      base @ [''protocol'', ''wlr-output-power-management-unstable-v1.xml''],
      base @ [''protocol'', ''wlr-layer-shell-unstable-v1.xml'']]"
  using Path_WLROOTS_PROTOCOLS root_of_protocols(2)
  by (simp add: WLROOTS_PROTOCOLS_def joinpath_def)

lemma find_None_list_all: "find (\<lambda>x. \<not> P x) xs = None \<longleftrightarrow> list_all P xs"
  by (induction xs) auto

text \<open>What \<^verbatim>\<open>parse_args\<close> comes to once both directories are known.\<close>

lemma parse_args_eq:
  assumes "get_wayland_protocols_dir pkgconf = Inr default_dir"
      and "opt_wlroots_dir args = Some wlroots_arg"
      and "(case opt_wayland_dir args of Some s \<Rightarrow> Some (Path s) | None \<Rightarrow> default_dir)
             = Some wayland_dir"
  shows "parse_args exists pkgconf args =
           (if \<not> exists wayland_dir
            then Inl (ValueError (Wayland_dir_does_not_exist (Some wayland_dir)))
            else if \<not> exists (Path wlroots_arg)
            then Inl (ValueError (Wlroots_dir_does_not_exist (Path wlroots_arg)))
            else
              (case find (\<lambda>protocol. \<not> exists protocol)
                      (map (joinpath wayland_dir) WAYLAND_PROCOTOLS
                       @ map (joinpath (Path wlroots_arg)) WLROOTS_PROTOCOLS) of
                 Some protocol \<Rightarrow> Inl (ValueError (Protocol_does_not_exist protocol))
               | None \<Rightarrow>
                   Inr (map (joinpath wayland_dir) WAYLAND_PROCOTOLS
                        @ map (joinpath (Path wlroots_arg)) WLROOTS_PROTOCOLS,
                        opt_generate args)))"
  using assms by (simp add: parse_args_def Let_def)

lemma parse_args_InrD:
  assumes "parse_args exists pkgconf args = Inr r"
  shows "\<exists>default_dir wlroots_arg wayland_dir.
           get_wayland_protocols_dir pkgconf = Inr default_dir
           \<and> opt_wlroots_dir args = Some wlroots_arg
           \<and> (case opt_wayland_dir args of Some s \<Rightarrow> Some (Path s) | None \<Rightarrow> default_dir)
                = Some wayland_dir"
  using assms
  by (auto simp: parse_args_def Let_def split: sum.splits option.splits)

text \<open>
  Claim C6. Whenever \<^verbatim>\<open>parse_args\<close> returns, the documents are the relative
  paths of \<^verbatim>\<open>WAYLAND_PROCOTOLS\<close> in their order, each below the wayland
  directory, followed by the relative paths of \<^verbatim>\<open>WLROOTS_PROTOCOLS\<close> in
  their order, each below the wlroots directory: one entry for each configured
  path, six in all, none dropped or merged, also when the two directories are
  the same. The wlroots directory is the one of the command line; the wayland
  directory is the one of the command line or, without one, the default.
\<close>

theorem parse_args_declared_order:
  assumes "parse_args exists pkgconf args = Inr (protocols, generate_headers)"
  shows "\<exists>wayland_dir wlroots_dir.
           map_option Path (opt_wlroots_dir args) = Some wlroots_dir
           \<and> (case opt_wayland_dir args of
                 Some s \<Rightarrow> Path s = wayland_dir
               | None \<Rightarrow> get_wayland_protocols_dir pkgconf = Inr (Some wayland_dir))
           \<and> protocols = map (joinpath wayland_dir) WAYLAND_PROCOTOLS
                          @ map (joinpath wlroots_dir) WLROOTS_PROTOCOLS
           \<and> protocols =
               [wayland_dir @ [''stable'', ''xdg-shell'', ''xdg-shell.xml''],
                wayland_dir @ [''unstable'', ''idle-inhibit'', ''idle-inhibit-unstable-v1.xml''],
                wayland_dir @ [''unstable'', ''pointer-constraints'',
                               ''pointer-constraints-unstable-v1.xml''],
                wlroots_dir @ [''protocol'', ''idle.xml''],
                wlroots_dir @ [''protocol'', ''wlr-output-power-management-unstable-v1.xml''],
                wlroots_dir @ [''protocol'', ''wlr-layer-shell-unstable-v1.xml'']]
           \<and> length protocols = length WAYLAND_PROCOTOLS + length WLROOTS_PROTOCOLS"
proof -
  from parse_args_InrD [OF assms] obtain default_dir wlroots_arg wayland_dir where r:
    "get_wayland_protocols_dir pkgconf = Inr default_dir"
    "opt_wlroots_dir args = Some wlroots_arg"
    "(case opt_wayland_dir args of Some s \<Rightarrow> Some (Path s) | None \<Rightarrow> default_dir)
       = Some wayland_dir"
    by blast
  have list: "protocols = map (joinpath wayland_dir) WAYLAND_PROCOTOLS
                          @ map (joinpath (Path wlroots_arg)) WLROOTS_PROTOCOLS"
    using assms unfolding parse_args_eq [OF r]
    by (auto split: if_splits option.splits)
  have dir: "case opt_wayland_dir args of
               Some s \<Rightarrow> Path s = wayland_dir
             | None \<Rightarrow> get_wayland_protocols_dir pkgconf = Inr (Some wayland_dir)"
    using r(1,3) by (simp split: option.splits)
  have "map_option Path (opt_wlroots_dir args) = Some (Path wlroots_arg)"
    using r(2) by simp
  moreover note dir list
  moreover have "protocols =
               [wayland_dir @ [''stable'', ''xdg-shell'', ''xdg-shell.xml''],
                wayland_dir @ [''unstable'', ''idle-inhibit'', ''idle-inhibit-unstable-v1.xml''],
                wayland_dir @ [''unstable'', ''pointer-constraints'',
                               ''pointer-constraints-unstable-v1.xml''],
                Path wlroots_arg @ [''protocol'', ''idle.xml''],
                Path wlroots_arg @ [''protocol'', ''wlr-output-power-management-unstable-v1.xml''],
                Path wlroots_arg @ [''protocol'', ''wlr-layer-shell-unstable-v1.xml'']]"
    unfolding list joinpath_WAYLAND_PROCOTOLS joinpath_WLROOTS_PROTOCOLS by simp
  moreover have "length protocols = length WAYLAND_PROCOTOLS + length WLROOTS_PROTOCOLS"
    unfolding list by simp
  ultimately show ?thesis by blast
qed

lemma example_default_dir:
  "get_wayland_protocols_dir (Completed ''/usr/share/wayland-protocols\<newline>'')
     = Inr (Some [''/'', ''usr'', ''share'', ''wayland-protocols''])"
  by code_simp

lemma example_parse_args:
  "parse_args example_exists (Completed ''/usr/share/wayland-protocols\<newline>'') example_argv =
     Inr ([[''/'', ''usr'', ''share'', ''wayland-protocols'', ''stable'', ''xdg-shell'', ''xdg-shell.xml''],
           [''/'', ''usr'', ''share'', ''wayland-protocols'', ''unstable'', ''idle-inhibit'',
            ''idle-inhibit-unstable-v1.xml''],
           [''/'', ''usr'', ''share'', ''wayland-protocols'', ''unstable'', ''pointer-constraints'',
            ''pointer-constraints-unstable-v1.xml''],
           [''/'', ''src'', ''wlroots'', ''protocol'', ''idle.xml''],
           [''/'', ''src'', ''wlroots'', ''protocol'', ''wlr-output-power-management-unstable-v1.xml''],
           [''/'', ''src'', ''wlroots'', ''protocol'', ''wlr-layer-shell-unstable-v1.xml'']],
          False)"
proof -
  note d = example_default_dir
  have w: "Path ''/src/wlroots'' = [''/'', ''src'', ''wlroots'']"
    by code_simp
  have a: "opt_wlroots_dir example_argv = Some ''/src/wlroots''"
    by (simp add: example_argv_def)
  have b: "(case opt_wayland_dir example_argv of
              Some s \<Rightarrow> Some (Path s)
            | None \<Rightarrow> Some [''/'', ''usr'', ''share'', ''wayland-protocols''])
           = Some [''/'', ''usr'', ''share'', ''wayland-protocols'']"
    by (simp add: example_argv_def)
  show ?thesis
    unfolding parse_args_eq [OF d a b]
    by (simp add: w joinpath_WAYLAND_PROCOTOLS joinpath_WLROOTS_PROTOCOLS example_exists_def
        example_argv_def)
qed

text \<open>
  On the example: no \<^verbatim>\<open>--wayland-dir\<close>, \<^verbatim>\<open>pkgconf\<close> answers
  \<^verbatim>\<open>/usr/share/wayland-protocols\<close>, and \<^verbatim>\<open>--wlroots-dir /src/wlroots\<close>.
\<close>

theorem parse_args_declared_order_witness:
  "\<exists>protocols.
     parse_args example_exists (Completed ''/usr/share/wayland-protocols\<newline>'') example_argv
       = Inr (protocols, False)
     \<and> protocols =
         [[''/'', ''usr'', ''share'', ''wayland-protocols'', ''stable'', ''xdg-shell'',
           ''xdg-shell.xml''],
          [''/'', ''usr'', ''share'', ''wayland-protocols'', ''unstable'', ''idle-inhibit'',
           ''idle-inhibit-unstable-v1.xml''],
          [''/'', ''usr'', ''share'', ''wayland-protocols'', ''unstable'', ''pointer-constraints'',
           ''pointer-constraints-unstable-v1.xml''],
          [''/'', ''src'', ''wlroots'', ''protocol'', ''idle.xml''],
          [''/'', ''src'', ''wlroots'', ''protocol'',
           ''wlr-output-power-management-unstable-v1.xml''],
          [''/'', ''src'', ''wlroots'', ''protocol'', ''wlr-layer-shell-unstable-v1.xml'']]
     \<and> length protocols = 6"
proof -
  have w: "Path ''/src/wlroots'' = [''/'', ''src'', ''wlroots'']"
    by code_simp
  note d = example_default_dir
  from parse_args_declared_order [OF example_parse_args]
  obtain wayland_dir wlroots_dir where r:
    "map_option Path (opt_wlroots_dir example_argv) = Some wlroots_dir"
    "case opt_wayland_dir example_argv of
       Some s \<Rightarrow> Path s = wayland_dir
     | None \<Rightarrow> get_wayland_protocols_dir (Completed ''/usr/share/wayland-protocols\<newline>'')
                = Inr (Some wayland_dir)"
    by blast
  from r(1) w have "wlroots_dir = [''/'', ''src'', ''wlroots'']"
    by (simp add: example_argv_def)
  moreover from r(2) d have "wayland_dir = [''/'', ''usr'', ''share'', ''wayland-protocols'']"
    by (simp add: example_argv_def)
  ultimately show ?thesis
    using example_parse_args by simp
qed

text \<open>
  Claim C7. \<^verbatim>\<open>parse_args\<close> returns the documents exactly when the query for
  the default directory did not raise, \<^verbatim>\<open>--wlroots-dir\<close> is given, a wayland
  directory is known (given, or else the default), both directories exist
  and each of the six resolved documents exists. In every other case it fails
  with an error and returns no documents; in particular it does so when a
  base directory is missing or does not exist and when a single resolved
  document does not exist.
\<close>

theorem parse_args_succeeds_iff:
  "((\<exists>r. parse_args exists pkgconf args = Inr r) \<longleftrightarrow>
      (\<exists>default_dir wlroots_arg wayland_dir.
         get_wayland_protocols_dir pkgconf = Inr default_dir
         \<and> opt_wlroots_dir args = Some wlroots_arg
         \<and> (case opt_wayland_dir args of Some s \<Rightarrow> Some (Path s) | None \<Rightarrow> default_dir)
              = Some wayland_dir
         \<and> exists wayland_dir
         \<and> exists (Path wlroots_arg)
         \<and> list_all exists
              (map (joinpath wayland_dir) WAYLAND_PROCOTOLS
               @ map (joinpath (Path wlroots_arg)) WLROOTS_PROTOCOLS)))
   \<and> ((\<exists>e. parse_args exists pkgconf args = Inl e) \<longleftrightarrow>
        \<not> (\<exists>r. parse_args exists pkgconf args = Inr r))"
proof (intro conjI iffI)
  assume "\<exists>r. parse_args exists pkgconf args = Inr r"
  then obtain r where ok: "parse_args exists pkgconf args = Inr r" ..
  from parse_args_InrD [OF ok] obtain default_dir wlroots_arg wayland_dir where r:
    "get_wayland_protocols_dir pkgconf = Inr default_dir"
    "opt_wlroots_dir args = Some wlroots_arg"
    "(case opt_wayland_dir args of Some s \<Rightarrow> Some (Path s) | None \<Rightarrow> default_dir)
       = Some wayland_dir"
    by blast
  from ok have "exists wayland_dir \<and> exists (Path wlroots_arg)
      \<and> find (\<lambda>protocol. \<not> exists protocol)
           (map (joinpath wayland_dir) WAYLAND_PROCOTOLS
            @ map (joinpath (Path wlroots_arg)) WLROOTS_PROTOCOLS) = None"
    unfolding parse_args_eq [OF r] by (auto split: if_splits option.splits)
  then have "exists wayland_dir \<and> exists (Path wlroots_arg)
      \<and> list_all exists
           (map (joinpath wayland_dir) WAYLAND_PROCOTOLS
            @ map (joinpath (Path wlroots_arg)) WLROOTS_PROTOCOLS)"
    by (simp only: find_None_list_all)
  with r show "\<exists>default_dir wlroots_arg wayland_dir.
         get_wayland_protocols_dir pkgconf = Inr default_dir
         \<and> opt_wlroots_dir args = Some wlroots_arg
         \<and> (case opt_wayland_dir args of Some s \<Rightarrow> Some (Path s) | None \<Rightarrow> default_dir)
              = Some wayland_dir
         \<and> exists wayland_dir
         \<and> exists (Path wlroots_arg)
         \<and> list_all exists
              (map (joinpath wayland_dir) WAYLAND_PROCOTOLS
               @ map (joinpath (Path wlroots_arg)) WLROOTS_PROTOCOLS)"
    by blast
next
  assume "\<exists>default_dir wlroots_arg wayland_dir.
         get_wayland_protocols_dir pkgconf = Inr default_dir
         \<and> opt_wlroots_dir args = Some wlroots_arg
         \<and> (case opt_wayland_dir args of Some s \<Rightarrow> Some (Path s) | None \<Rightarrow> default_dir)
              = Some wayland_dir
         \<and> exists wayland_dir
         \<and> exists (Path wlroots_arg)
         \<and> list_all exists
              (map (joinpath wayland_dir) WAYLAND_PROCOTOLS
               @ map (joinpath (Path wlroots_arg)) WLROOTS_PROTOCOLS)"
  then obtain default_dir wlroots_arg wayland_dir where r:
    "get_wayland_protocols_dir pkgconf = Inr default_dir"
    "opt_wlroots_dir args = Some wlroots_arg"
    "(case opt_wayland_dir args of Some s \<Rightarrow> Some (Path s) | None \<Rightarrow> default_dir)
       = Some wayland_dir"
    and e: "exists wayland_dir" "exists (Path wlroots_arg)"
      "list_all exists
         (map (joinpath wayland_dir) WAYLAND_PROCOTOLS
          @ map (joinpath (Path wlroots_arg)) WLROOTS_PROTOCOLS)"
    by blast
  from e(3) have "find (\<lambda>protocol. \<not> exists protocol)
           (map (joinpath wayland_dir) WAYLAND_PROCOTOLS
            @ map (joinpath (Path wlroots_arg)) WLROOTS_PROTOCOLS) = None"
    by (simp only: find_None_list_all)
  with e(1,2) show "\<exists>r. parse_args exists pkgconf args = Inr r"
    unfolding parse_args_eq [OF r] by simp
next
  assume "\<exists>e. parse_args exists pkgconf args = Inl e"
  then show "\<not> (\<exists>r. parse_args exists pkgconf args = Inr r)" by auto
next
  assume "\<not> (\<exists>r. parse_args exists pkgconf args = Inr r)"
  then show "\<exists>e. parse_args exists pkgconf args = Inl e"
    by (cases "parse_args exists pkgconf args") auto
qed

text \<open>
  On the examples: with everything in place the documents are returned; with
  \<^verbatim>\<open>pkgconf\<close> failing and no \<^verbatim>\<open>--wayland-dir\<close> there is no wayland
  directory and \<^verbatim>\<open>parse_args\<close> fails; and with the single document
  \<^verbatim>\<open>protocol/idle.xml\<close> absent it fails too.
\<close>

theorem parse_args_succeeds_iff_witness:
  "(\<exists>r. parse_args example_exists (Completed ''/usr/share/wayland-protocols\<newline>'')
          example_argv = Inr r)
   \<and> (\<exists>e. parse_args example_exists NonZeroExit example_argv = Inl e)
   \<and> (\<exists>e. parse_args
             (\<lambda>p. example_exists p \<and> p \<noteq> [''/'', ''src'', ''wlroots'', ''protocol'', ''idle.xml''])
             (Completed ''/usr/share/wayland-protocols\<newline>'') example_argv = Inl e)"
proof -
  define idle where "idle = [''/'', ''src'', ''wlroots'', ''protocol'', ''idle.xml'']"
  define wd where "wd = [''/'', ''usr'', ''share'', ''wayland-protocols'']"
  have w: "Path ''/src/wlroots'' = [''/'', ''src'', ''wlroots'']"
    by code_simp
  have d: "get_wayland_protocols_dir (Completed ''/usr/share/wayland-protocols\<newline>'')
             = Inr (Some wd)"
    unfolding wd_def by (rule example_default_dir)
  have n: "get_wayland_protocols_dir NonZeroExit = Inr None"
    by (simp add: get_wayland_protocols_dir_def)
  have a: "opt_wlroots_dir example_argv = Some ''/src/wlroots''"
    and b: "opt_wayland_dir example_argv = None"
    by (simp_all add: example_argv_def)
  have all: "list_all example_exists
               (map (joinpath wd) WAYLAND_PROCOTOLS
                @ map (joinpath (Path ''/src/wlroots'')) WLROOTS_PROTOCOLS)"
    by (simp add: w wd_def joinpath_WAYLAND_PROCOTOLS joinpath_WLROOTS_PROTOCOLS
        example_exists_def)
  have "example_exists wd" "example_exists (Path ''/src/wlroots'')"
    by (simp_all add: w wd_def example_exists_def)
  with d a b all have 1:
    "\<exists>r. parse_args example_exists (Completed ''/usr/share/wayland-protocols\<newline>'')
          example_argv = Inr r"
    by (subst parse_args_succeeds_iff [THEN conjunct1]) simp
  have "\<not> (\<exists>r. parse_args example_exists NonZeroExit example_argv = Inr r)"
    by (subst parse_args_succeeds_iff [THEN conjunct1]) (simp add: n b)
  then have 2: "\<exists>e. parse_args example_exists NonZeroExit example_argv = Inl e"
    by (subst parse_args_succeeds_iff [THEN conjunct2])
  have "\<not> list_all (\<lambda>p. example_exists p \<and> p \<noteq> idle)
               (map (joinpath wd) WAYLAND_PROCOTOLS
                @ map (joinpath (Path ''/src/wlroots'')) WLROOTS_PROTOCOLS)"
    by (simp add: w idle_def joinpath_WLROOTS_PROTOCOLS)
  with d a b have
    "\<not> (\<exists>r. parse_args (\<lambda>p. example_exists p \<and> p \<noteq> idle)
               (Completed ''/usr/share/wayland-protocols\<newline>'') example_argv = Inr r)"
    by (subst parse_args_succeeds_iff [THEN conjunct1]) simp
  then have 3: "\<exists>e. parse_args (\<lambda>p. example_exists p \<and> p \<noteq> idle)
               (Completed ''/usr/share/wayland-protocols\<newline>'') example_argv = Inl e"
    by (subst parse_args_succeeds_iff [THEN conjunct2])
  from 1 2 3 show ?thesis
    unfolding idle_def by (intro conjI)
qed

subsection \<open>The default wayland directory\<close>

lemma get_wayland_protocols_dir_NonZeroExit:
  "get_wayland_protocols_dir NonZeroExit = Inr None"
  by (simp add: get_wayland_protocols_dir_def)

text \<open>
  Claim C8. The claim holds when \<^verbatim>\<open>pkgconf\<close> runs and exits with a non-zero
  status: the \<^verbatim>\<open>except\<close> clause turns that into \<open>None\<close>. It does not hold
  when \<^verbatim>\<open>pkgconf\<close> cannot be started, which is the failure to invoke it:
  \<^verbatim>\<open>check_output\<close> raises \<^verbatim>\<open>FileNotFoundError\<close>, the clause catches
  \<^verbatim>\<open>CalledProcessError\<close> only, and the function raises. The default is
  computed before the command line is read, so \<^verbatim>\<open>parse_args\<close> raises too,
  whatever the command line gives, also a \<^verbatim>\<open>--wayland-dir\<close> that would make
  the default unnecessary.
\<close>

theorem get_wayland_protocols_dir_not_started:
  "get_wayland_protocols_dir NotStarted = Inl FileNotFoundError
   \<and> parse_args exists NotStarted args = Inl FileNotFoundError"
  by (simp add: get_wayland_protocols_dir_def parse_args_def)

end
